theory Spec2Isabelle
  imports Main "HOL-Library.Word" "HOL-Library.Signed_Division"
begin

unbundle bit_operations_syntax

section \<open>Pawn structure and king safety of Fairy-Stockfish (pawns.cpp)\<close>

text \<open>
  A shallow embedding of \<^verbatim>\<open>src/pawns.cpp\<close>: the per-side pawn evaluation
  \<^verbatim>\<open>evaluate<Us>\<close>, the pawn hash table lookup \<^verbatim>\<open>Pawns::probe\<close>, the king shelter
  \<^verbatim>\<open>Entry::evaluate_shelter<Us>\<close> and \<^verbatim>\<open>Entry::do_king_safety<Us>\<close>.

  The file includes \<^verbatim>\<open>bitboard.h\<close>, \<^verbatim>\<open>pawns.h\<close>, \<^verbatim>\<open>position.h\<close> and
  \<^verbatim>\<open>thread.h\<close>, which are not part of the sources at hand. What it uses of them enters
  the model as parameters: the bitboard helpers as a record of functions, the position as a
  record of the answers to the queries that are asked, the hash table as a function from
  slots to entries together with its size.
\<close>

subsection \<open>Basic types\<close>

datatype Color = WHITE | BLACK

text \<open>The piece types that pawns.cpp names (the enum has more members).\<close>

datatype PieceType = PAWN | SHOGI_PAWN | KING | ALL_PIECES

datatype CastlingSide = KING_SIDE | QUEEN_SIDE

type_synonym Square = int
type_synonym File = int
type_synonym Rank = int
type_synonym Direction = int
type_synonym Value = int
type_synonym Key = "64 word"

text \<open>The enumerators of \<^verbatim>\<open>Rank\<close> and \<^verbatim>\<open>File\<close> count from zero.\<close>

abbreviation (input) RANK_1 :: Rank where "RANK_1 \<equiv> 0"
abbreviation (input) RANK_2 :: Rank where "RANK_2 \<equiv> 1"
abbreviation (input) RANK_3 :: Rank where "RANK_3 \<equiv> 2"
abbreviation (input) RANK_4 :: Rank where "RANK_4 \<equiv> 3"
abbreviation (input) RANK_5 :: Rank where "RANK_5 \<equiv> 4"
abbreviation (input) FILE_B :: File where "FILE_B \<equiv> 1"
abbreviation (input) FILE_D :: File where "FILE_D \<equiv> 3"
abbreviation (input) VALUE_ZERO :: Value where "VALUE_ZERO \<equiv> 0"
abbreviation (input) VALUE_INFINITE :: Value where "VALUE_INFINITE \<equiv> 32001"

subsection \<open>Scores\<close>

text \<open>
  Modelled from the spec: the type \<^verbatim>\<open>Score\<close> (types.h is not among the sources) is
  "a two-phase score (pair of integers: midgame value, endgame value)". Addition and
  subtraction work on both halves, multiplication and division by an \<^verbatim>\<open>int\<close> too;
  C++ division truncates towards zero (\<open>sdiv\<close>).
\<close>

datatype Score = make_score (mg_value: Value) (eg_value: Value)

instantiation Score :: "{zero, plus, minus}"
begin

definition zero_Score :: Score where
  "zero_Score = make_score 0 0"

definition plus_Score :: "Score \<Rightarrow> Score \<Rightarrow> Score" where
  "plus_Score a b = make_score (mg_value a + mg_value b) (eg_value a + eg_value b)"

definition minus_Score :: "Score \<Rightarrow> Score \<Rightarrow> Score" where
  "minus_Score a b = make_score (mg_value a - mg_value b) (eg_value a - eg_value b)"

instance ..

end

abbreviation (input) SCORE_ZERO :: Score where "SCORE_ZERO \<equiv> 0"

definition score_mul :: "Score \<Rightarrow> int \<Rightarrow> Score" where
  "score_mul a i = make_score (mg_value a * i) (eg_value a * i)"

definition score_div :: "Score \<Rightarrow> int \<Rightarrow> Score" where
  "score_div a i = make_score (mg_value a sdiv i) (eg_value a sdiv i)"

subsection \<open>Constants of pawns.cpp\<close>

definition Backward :: Score where "Backward = make_score 9 24"
definition Doubled :: Score where "Doubled = make_score 11 56"
definition Isolated :: Score where "Isolated = make_score 5 15"
definition WeakLever :: Score where "WeakLever = make_score 0 56"
definition WeakUnopposed :: Score where "WeakUnopposed = make_score 13 27"

text \<open>
  The arrays have \<^verbatim>\<open>RANK_NB\<close> columns and seven initialisers; C++ fills the rest with
  zero. \<open>array_at\<close> reads an array so: the initialiser inside its list, zero after it.
  The code never reads below index 0 or past the array (ranks are below \<^verbatim>\<open>RANK_NB\<close>,
  the row index is at most \<^verbatim>\<open>FILE_D\<close>); no claim depends on the value there.
\<close>

definition array_at :: "int list \<Rightarrow> int \<Rightarrow> int" where
  "array_at xs i = (if 0 \<le> i \<and> nat i < length xs then xs ! nat i else 0)"

definition array2_at :: "int list list \<Rightarrow> int \<Rightarrow> int \<Rightarrow> int" where
  "array2_at xss i j = (if 0 \<le> i \<and> nat i < length xss then array_at (xss ! nat i) j else 0)"

definition Connected :: "int list" where
  "Connected = [0, 7, 8, 12, 29, 48, 86]"

definition ShelterStrength :: "Value list list" where
  "ShelterStrength =
    [[ -6,  81,  93,  58,  39,  18,   25],
     [-43,  61,  35, -49, -29, -11,  -63],
     [-10,  75,  23,  -2,  32,   3,  -45],
     [-39, -13, -29, -52, -48, -67, -166]]"

definition UnblockedStorm :: "Value list list" where
  "UnblockedStorm =
    [[ 89, -285, -185, 93, 57,  45,  51],
     [ 44,  -18,  123, 46, 39,  -7,  23],
     [  4,   52,  162, 37,  7, -14,  -2],
     [-10,  -14,   90, 15,  2,  -7, -16]]"

subsection \<open>The bitboard helpers (bitboard.h, types.h)\<close>

text \<open>
  A bitboard is a machine word with one bit per square: 64 bits in the default build, 128
  with large boards, so the width stays a type parameter. \<^verbatim>\<open>square_bb\<close>,
  \<^verbatim>\<open>popcount\<close>, \<^verbatim>\<open>lsb\<close> and \<^verbatim>\<open>pop_lsb\<close> are the usual bit primitives:
  the bitboard of one square, the number of set bits, the index of the lowest set bit (the
  code calls it on non-empty bitboards only).
\<close>

definition square_bb :: "Square \<Rightarrow> 'w::len word" where
  "square_bb s = (if 0 \<le> s then push_bit (nat s) 1 else 0)"

definition popcount :: "'w::len word \<Rightarrow> int" where
  "popcount b = int (length (filter (bit b) [0..<LENGTH('w)]))"

definition lsb :: "'w::len word \<Rightarrow> Square" where
  "lsb b = (case find (bit b) [0..<LENGTH('w)] of Some n \<Rightarrow> int n | None \<Rightarrow> 0)"

definition clamp :: "int \<Rightarrow> int \<Rightarrow> int \<Rightarrow> int" where
  "clamp v lo hi = (if v < lo then lo else if v > hi then hi else v)"

text \<open>
  The geometry of the board comes from tables and inline functions of bitboard.h and
  types.h. They are parameters of the model, under the names the code calls them by.
  The records take the bitboard type as their parameter \<open>'b\<close>; it is a word
  \<open>'w word\<close> wherever the code computes with it.
\<close>

record 'b bitboard_h =
  NORTH :: Direction
  SQ_NONE :: Square
  is_ok :: "Square \<Rightarrow> bool"
  file_of :: "Square \<Rightarrow> File"
  make_square :: "File \<Rightarrow> Rank \<Rightarrow> Square"
  relative_rank :: "Color \<Rightarrow> Square \<Rightarrow> Rank \<Rightarrow> Rank"
  file_bb :: "File \<Rightarrow> 'b"
  rank_bb :: "Square \<Rightarrow> 'b"
  adjacent_files_bb :: "Square \<Rightarrow> 'b"
  forward_ranks_bb :: "Color \<Rightarrow> Square \<Rightarrow> 'b"
  forward_file_bb :: "Color \<Rightarrow> Square \<Rightarrow> 'b"
  passed_pawn_span :: "Color \<Rightarrow> Square \<Rightarrow> 'b"
  pawn_attack_span :: "Color \<Rightarrow> Square \<Rightarrow> 'b"
  PseudoAttacks :: "Color \<Rightarrow> PieceType \<Rightarrow> Square \<Rightarrow> 'b"
  pawn_attacks_bb :: "Color \<Rightarrow> 'b \<Rightarrow> 'b"
  pawn_double_attacks_bb :: "Color \<Rightarrow> 'b \<Rightarrow> 'b"
  shift :: "Direction \<Rightarrow> 'b \<Rightarrow> 'b"
  frontmost_sq :: "Color \<Rightarrow> 'b \<Rightarrow> Square"
  distance :: "Square \<Rightarrow> Square \<Rightarrow> int"

definition SOUTH :: "'b bitboard_h \<Rightarrow> Direction" where
  "SOUTH g = - NORTH g"

subsection \<open>The position (position.h)\<close>

text \<open>
  The position is read through its queries only. Each field is the answer to one query:
  \<open>pieces_pt pos pt\<close> is \<^verbatim>\<open>pos.pieces(pt)\<close>, \<open>pieces_pt2 pos pt1 pt2\<close> is
  \<^verbatim>\<open>pos.pieces(pt1, pt2)\<close>, \<open>pieces_c pos c\<close> is \<^verbatim>\<open>pos.pieces(c)\<close>,
  \<open>pieces pos c pt\<close> is \<^verbatim>\<open>pos.pieces(c, pt)\<close>, \<open>squares pos pt c\<close> is the piece list
  \<^verbatim>\<open>pos.squares<pt>(c)\<close>, \<open>count pos pt c\<close> is \<^verbatim>\<open>pos.count<pt>(c)\<close> and
  \<open>square pos pt c\<close> is \<^verbatim>\<open>pos.square<pt>(c)\<close>.
\<close>

record 'b Position =
  pawn_key :: Key
  pieces :: "Color \<Rightarrow> PieceType \<Rightarrow> 'b"
  pieces_pt :: "PieceType \<Rightarrow> 'b"
  pieces_pt2 :: "PieceType \<Rightarrow> PieceType \<Rightarrow> 'b"
  pieces_c :: "Color \<Rightarrow> 'b"
  squares :: "PieceType \<Rightarrow> Color \<Rightarrow> Square list"
  count :: "PieceType \<Rightarrow> Color \<Rightarrow> int"
  square :: "PieceType \<Rightarrow> Color \<Rightarrow> Square"
  board_bb :: "'b"
  max_rank :: Rank
  max_file :: File
  captures_to_hand :: bool
  must_capture :: bool
  castling_rights :: "Color \<Rightarrow> int"
  can_castle :: "Color \<Rightarrow> CastlingSide \<Rightarrow> bool"
  castling_kingside_file :: File
  castling_queenside_file :: File

subsection \<open>The hash table entry (pawns.h)\<close>

text \<open>
  Modelled from the spec: \<^verbatim>\<open>Pawns::Entry\<close> (pawns.h is not among the sources) with the
  fields the data model lists; an array indexed by colour is a function of the colour.
\<close>

record 'b Entry =
  key :: Key
  scores :: "Color \<Rightarrow> Score"
  passedPawns :: "Color \<Rightarrow> 'b"
  pawnAttacksSpan :: "Color \<Rightarrow> 'b"
  pawnAttacks :: "Color \<Rightarrow> 'b"
  kingSquares :: "Color \<Rightarrow> Square"
  castlingRights :: "Color \<Rightarrow> int"


subsection \<open>The per-side pawn evaluation: \<^verbatim>\<open>evaluate<Us>\<close>\<close>

definition Them :: "Color \<Rightarrow> Color" where
  "Them Us = (if Us = WHITE then BLACK else WHITE)"

definition Up :: "'b bitboard_h \<Rightarrow> Color \<Rightarrow> Direction" where
  "Up g Us = (if Us = WHITE then NORTH g else SOUTH g)"

definition ourPawns :: "'b Position \<Rightarrow> Color \<Rightarrow> 'b" where
  "ourPawns pos Us = pieces pos Us PAWN"

definition theirPawns :: "'b Position \<Rightarrow> Color \<Rightarrow> 'b" where
  "theirPawns pos Us = pieces pos (Them Us) PAWN"

definition doubleAttackThem :: "'b bitboard_h \<Rightarrow> 'b Position \<Rightarrow> Color \<Rightarrow> 'b" where
  "doubleAttackThem g pos Us = pawn_double_attacks_bb g (Them Us) (theirPawns pos Us)"

text \<open>
  The local variables of the loop body, each as a function of the pawn's square \<open>s\<close>
  (lines 94 to 106 of the source).
\<close>

definition pawn_rank :: "'b bitboard_h \<Rightarrow> 'b Position \<Rightarrow> Color \<Rightarrow> Square \<Rightarrow> Rank" where
  "pawn_rank g pos Us s = relative_rank g Us s (max_rank pos)"

definition opposed :: "'w::len word bitboard_h \<Rightarrow> 'w word Position \<Rightarrow> Color \<Rightarrow> Square \<Rightarrow> bool" where
  "opposed g pos Us s \<longleftrightarrow> theirPawns pos Us AND forward_file_bb g Us s \<noteq> 0"

definition stoppers :: "'w::len word bitboard_h \<Rightarrow> 'w word Position \<Rightarrow> Color \<Rightarrow> Square \<Rightarrow> 'w word" where
  "stoppers g pos Us s = theirPawns pos Us AND passed_pawn_span g Us s"

definition lever :: "'w::len word bitboard_h \<Rightarrow> 'w word Position \<Rightarrow> Color \<Rightarrow> Square \<Rightarrow> 'w word" where
  "lever g pos Us s = theirPawns pos Us AND PseudoAttacks g Us PAWN s"

definition leverPush :: "'w::len word bitboard_h \<Rightarrow> 'w word Position \<Rightarrow> Color \<Rightarrow> Square \<Rightarrow> 'w word" where
  "leverPush g pos Us s =
     (if relative_rank g (Them Us) s (max_rank pos) > RANK_1
      then theirPawns pos Us AND PseudoAttacks g Us PAWN (s + Up g Us) else 0)"

definition doubled :: "'w::len word bitboard_h \<Rightarrow> 'w word Position \<Rightarrow> Color \<Rightarrow> Square \<Rightarrow> 'w word" where
  "doubled g pos Us s =
     (if pawn_rank g pos Us s > RANK_1 then ourPawns pos Us AND square_bb (s - Up g Us) else 0)"

definition neighbours :: "'w::len word bitboard_h \<Rightarrow> 'w word Position \<Rightarrow> Color \<Rightarrow> Square \<Rightarrow> 'w word" where
  "neighbours g pos Us s = ourPawns pos Us AND adjacent_files_bb g s"

definition phalanx :: "'w::len word bitboard_h \<Rightarrow> 'w word Position \<Rightarrow> Color \<Rightarrow> Square \<Rightarrow> 'w word" where
  "phalanx g pos Us s = neighbours g pos Us s AND rank_bb g s"

definition support :: "'w::len word bitboard_h \<Rightarrow> 'w word Position \<Rightarrow> Color \<Rightarrow> Square \<Rightarrow> 'w word" where
  "support g pos Us s =
     (if pawn_rank g pos Us s > RANK_1 then neighbours g pos Us s AND rank_bb g (s - Up g Us) else 0)"

definition backward :: "'w::len word bitboard_h \<Rightarrow> 'w word Position \<Rightarrow> Color \<Rightarrow> Square \<Rightarrow> bool" where
  "backward g pos Us s \<longleftrightarrow>
       neighbours g pos Us s AND forward_ranks_bb g (Them Us) s = 0
     \<and> is_ok g (s + Up g Us)
     \<and> stoppers g pos Us s AND (leverPush g pos Us s OR square_bb (s + Up g Us)) \<noteq> 0"

definition passed :: "'w::len word bitboard_h \<Rightarrow> 'w word Position \<Rightarrow> Color \<Rightarrow> Square \<Rightarrow> bool" where
  "passed g pos Us s \<longleftrightarrow>
       stoppers g pos Us s XOR lever g pos Us s = 0
     \<or> (stoppers g pos Us s XOR leverPush g pos Us s = 0
        \<and> popcount (phalanx g pos Us s) \<ge> popcount (leverPush g pos Us s))
     \<or> (is_ok g (s + Up g Us) \<and> stoppers g pos Us s = square_bb (s + Up g Us)
        \<and> pawn_rank g pos Us s \<ge> RANK_5
        \<and> shift g (Up g Us) (support g pos Us s)
            AND NOT (theirPawns pos Us OR doubleAttackThem g pos Us) \<noteq> 0)"

text \<open>The local \<^verbatim>\<open>int v\<close> of the connected branch (lines 133 to 136).\<close>

definition connected_v :: "'w::len word bitboard_h \<Rightarrow> 'w word Position \<Rightarrow> Color \<Rightarrow> Square \<Rightarrow> int" where
  "connected_v g pos Us s =
     (let r = pawn_rank g pos Us s;
          v = (array_at Connected r * (if phalanx g pos Us s \<noteq> 0 then 3 else 2)
                 * (if r = RANK_2 \<and> captures_to_hand pos then 3 else 1))
                sdiv (if opposed g pos Us s then 2 else 1)
              + 17 * popcount (support g pos Us s)
      in if r \<ge> RANK_4 \<and> count pos PAWN Us > popcount (board_bb pos) sdiv 4
         then max v (popcount (support g pos Us s OR phalanx g pos Us s) * 50)
                sdiv (if opposed g pos Us s then 2 else 1)
         else v)"

text \<open>"Score this pawn" (lines 131 to 147): what one pawn does to the running score.\<close>

definition score_pawn :: "'w::len word bitboard_h \<Rightarrow> 'w word Position \<Rightarrow> Color \<Rightarrow> Square \<Rightarrow> Score \<Rightarrow> Score" where
  "score_pawn g pos Us s score =
     (let score1 =
        (if support g pos Us s OR phalanx g pos Us s \<noteq> 0
         then (let v = connected_v g pos Us s
               in score + make_score v ((v * (pawn_rank g pos Us s - 2)) sdiv 4))
         else if neighbours g pos Us s = 0
         then score - (score_mul Isolated (1 + 2 * of_bool (must_capture pos))
                       + score_mul WeakUnopposed (of_bool (\<not> opposed g pos Us s)))
         else if backward g pos Us s
         then score - (Backward + score_mul WeakUnopposed (of_bool (\<not> opposed g pos Us s)))
         else score)
      in if doubled g pos Us s \<noteq> 0 \<and> support g pos Us s = 0 then score1 - Doubled else score1)"

text \<open>What one pawn does to the entry (lines 96 and 127 to 128).\<close>

definition flag_pawn :: "'w::len word bitboard_h \<Rightarrow> 'w word Position \<Rightarrow> Color \<Rightarrow> Square \<Rightarrow> 'w word Entry \<Rightarrow> 'w word Entry" where
  "flag_pawn g pos Us s e =
     (let e1 = e\<lparr>pawnAttacksSpan :=
                  (pawnAttacksSpan e)(Us := pawnAttacksSpan e Us OR pawn_attack_span g Us s)\<rparr>
      in if passed g pos Us s \<and> is_ok g (s + Up g Us)
         then e1\<lparr>passedPawns := (passedPawns e1)(Us := passedPawns e1 Us OR square_bb s)\<rparr>
         else e1)"

text \<open>
  The loop over the piece list, \<^verbatim>\<open>while ((s = *pl++) != SQ_NONE)\<close>: it ends at the
  first \<^verbatim>\<open>SQ_NONE\<close>, the list's terminator.
\<close>

fun pawn_loop :: "'w::len word bitboard_h \<Rightarrow> 'w word Position \<Rightarrow> Color \<Rightarrow> Square list
    \<Rightarrow> Score \<times> 'w word Entry \<Rightarrow> Score \<times> 'w word Entry" where
  "pawn_loop g pos Us [] (score, e) = (score, e)"
| "pawn_loop g pos Us (s # pl) (score, e) =
     (if s = SQ_NONE g then (score, e)
      else pawn_loop g pos Us pl (score_pawn g pos Us s score, flag_pawn g pos Us s e))"

fun shogi_pawn_loop :: "'w::len word bitboard_h \<Rightarrow> 'w word Position \<Rightarrow> Color \<Rightarrow> Square list
    \<Rightarrow> Score \<Rightarrow> Score" where
  "shogi_pawn_loop g pos Us [] score = score"
| "shogi_pawn_loop g pos Us (s # pl) score =
     (if s = SQ_NONE g then score
      else shogi_pawn_loop g pos Us pl
             (if pieces pos Us SHOGI_PAWN AND adjacent_files_bb g s = 0
              then score - score_div Isolated 2 else score))"

text \<open>The bitboard \<^verbatim>\<open>b\<close> of line 151, read from the entry after the loop.\<close>

definition weak_lever_bb :: "'w::len word bitboard_h \<Rightarrow> 'w word Position \<Rightarrow> Color \<Rightarrow> 'w word Entry \<Rightarrow> 'w word" where
  "weak_lever_bb g pos Us e =
     ourPawns pos Us AND doubleAttackThem g pos Us AND NOT (pawnAttacks e Us OR passedPawns e Us)"

text \<open>Lines 85 to 87: the fields of the entry that are reset before the loop.\<close>

definition reset_entry :: "'w::len word bitboard_h \<Rightarrow> 'w word Position \<Rightarrow> Color \<Rightarrow> 'w word Entry \<Rightarrow> 'w word Entry" where
  "reset_entry g pos Us e =
     e\<lparr>passedPawns := (passedPawns e)(Us := 0),
       pawnAttacksSpan := (pawnAttacksSpan e)(Us := 0),
       kingSquares := (kingSquares e)(Us := SQ_NONE g),
       pawnAttacks := (pawnAttacks e)(Us := pawn_attacks_bb g Us (ourPawns pos Us))\<rparr>"

text \<open>Lines 156 to 176: the doubling without pieces, then the loop over the shogi pawns.\<close>

definition finish_score :: "'w::len word bitboard_h \<Rightarrow> 'w word Position \<Rightarrow> Color \<Rightarrow> Score \<Rightarrow> Score" where
  "finish_score g pos Us score =
     shogi_pawn_loop g pos Us (squares pos SHOGI_PAWN Us)
       (if count pos ALL_PIECES Us = count pos PAWN Us then score_mul score 2 else score)"

text \<open>What follows the pawn loop (lines 150 to 176), from the loop's score and entry.\<close>

definition after_loop :: "'w::len word bitboard_h \<Rightarrow> 'w word Position \<Rightarrow> Color \<Rightarrow> Score \<times> 'w word Entry \<Rightarrow> Score" where
  "after_loop g pos Us se =
     finish_score g pos Us
       (fst se - score_mul WeakLever (popcount (weak_lever_bb g pos Us (snd se))))"

definition evaluate :: "'w::len word bitboard_h \<Rightarrow> 'w word Position \<Rightarrow> Color \<Rightarrow> 'w word Entry
    \<Rightarrow> Score \<times> 'w word Entry" where
  "evaluate g pos Us e =
     (let se = pawn_loop g pos Us (squares pos PAWN Us) (SCORE_ZERO, reset_entry g pos Us e)
      in (after_loop g pos Us se, snd se))"

subsection \<open>The hash table: \<^verbatim>\<open>Pawns::probe\<close>\<close>

text \<open>
  Modelled from the spec: \<^verbatim>\<open>pos.this_thread()->pawnsTable[key]\<close> (the table is declared
  in pawns.h and misc.h, not among the sources) is "the table slot addressed by (key mod
  table size)". The table is a function from slots to entries; \<open>Size\<close> is its size. The
  pointer that probe returns is the slot's number, next to the table after the call.
\<close>

definition table_slot :: "nat \<Rightarrow> Key \<Rightarrow> nat" where
  "table_slot Size k = unat k mod Size"

definition probe :: "nat \<Rightarrow> 'w::len word bitboard_h \<Rightarrow> 'w word Position \<Rightarrow> (nat \<Rightarrow> 'w word Entry)
    \<Rightarrow> nat \<times> (nat \<Rightarrow> 'w word Entry)" where
  "probe Size g pos pawnsTable =
     (let k = pawn_key pos;
          i = table_slot Size k;
          e = pawnsTable i
      in if key e = k \<and> pieces_pt pos SHOGI_PAWN = 0 then (i, pawnsTable)
         else (let e1 = e\<lparr>key := k\<rparr>;
                   w = evaluate g pos WHITE e1;
                   e2 = (snd w)\<lparr>scores := (scores (snd w))(WHITE := fst w)\<rparr>;
                   b = evaluate g pos BLACK e2;
                   e3 = (snd b)\<lparr>scores := (scores (snd b))(BLACK := fst b)\<rparr>
               in (i, pawnsTable(i := e3))))"

subsection \<open>The king's shelter: \<^verbatim>\<open>Entry::evaluate_shelter<Us>\<close>\<close>

text \<open>The pawn bitboards of lines 212 to 214.\<close>

definition shelter_ourPawns :: "'w::len word bitboard_h \<Rightarrow> 'w word Position \<Rightarrow> Color \<Rightarrow> Square \<Rightarrow> 'w word" where
  "shelter_ourPawns g pos Us ksq =
     (pieces_pt2 pos PAWN SHOGI_PAWN AND NOT (forward_ranks_bb g (Them Us) ksq)) AND pieces_c pos Us"

definition shelter_theirPawns :: "'w::len word bitboard_h \<Rightarrow> 'w word Position \<Rightarrow> Color \<Rightarrow> Square \<Rightarrow> 'w word" where
  "shelter_theirPawns g pos Us ksq =
     (pieces_pt2 pos PAWN SHOGI_PAWN AND NOT (forward_ranks_bb g (Them Us) ksq))
       AND pieces_c pos (Them Us)"

text \<open>
  \<^verbatim>\<open>b ? relative_rank(Us, frontmost_sq(Them, b), pos.max_rank()) : RANK_1\<close>, the
  expression of lines 222 and 225.
\<close>

definition rank_on_file :: "'w::len word bitboard_h \<Rightarrow> 'w word Position \<Rightarrow> Color \<Rightarrow> 'w word \<Rightarrow> Rank" where
  "rank_on_file g pos Us b =
     (if b \<noteq> 0 then relative_rank g Us (frontmost_sq g (Them Us) b) (max_rank pos) else RANK_1)"

text \<open>The index \<^verbatim>\<open>d\<close> of line 227.\<close>

definition shelter_d :: "'b Position \<Rightarrow> File \<Rightarrow> int" where
  "shelter_d pos f = min (min f (max_file pos - f)) FILE_D"

text \<open>
  Lines 228 to 233: what a file adds to the bonus, from the index \<^verbatim>\<open>d\<close>, the two ranks
  and \<^verbatim>\<open>pos.captures_to_hand()\<close>.
\<close>

definition shelter_term :: "bool \<Rightarrow> int \<Rightarrow> Rank \<Rightarrow> Rank \<Rightarrow> Score \<Rightarrow> Score" where
  "shelter_term cth d ourRank theirRank bonus =
     (let bonus1 = bonus + score_mul (make_score (array2_at ShelterStrength d ourRank) 0)
                             (1 + of_bool (cth \<and> ourRank \<le> RANK_2))
      in if ourRank \<noteq> 0 \<and> ourRank = theirRank - 1
         then bonus1 - make_score (82 * of_bool (theirRank = RANK_3)) (82 * of_bool (theirRank = RANK_3))
         else bonus1 - make_score (array2_at UnblockedStorm d theirRank) 0)"

text \<open>The body of the loop over the files (lines 221 to 233).\<close>

definition shelter_file :: "'w::len word bitboard_h \<Rightarrow> 'w word Position \<Rightarrow> Color \<Rightarrow> Square \<Rightarrow> File
    \<Rightarrow> Score \<Rightarrow> Score" where
  "shelter_file g pos Us ksq f bonus =
     (let ourRank = rank_on_file g pos Us (shelter_ourPawns g pos Us ksq AND file_bb g f);
          theirRank = rank_on_file g pos Us (shelter_theirPawns g pos Us ksq AND file_bb g f);
          d = shelter_d pos f
      in shelter_term (captures_to_hand pos) d ourRank theirRank bonus)"

text \<open>\<^verbatim>\<open>for (File f = File(center - 1); f <= File(center + 1); ++f)\<close>, from \<open>f\<close> to \<open>hi\<close>.\<close>

function shelter_loop :: "'w::len word bitboard_h \<Rightarrow> 'w word Position \<Rightarrow> Color \<Rightarrow> Square \<Rightarrow> File \<Rightarrow> File
    \<Rightarrow> Score \<Rightarrow> Score" where
  "shelter_loop g pos Us ksq f hi bonus =
     (if f \<le> hi then shelter_loop g pos Us ksq (f + 1) hi (shelter_file g pos Us ksq f bonus)
      else bonus)"
  by pat_completeness auto
termination
  by (relation "measure (\<lambda>(g, pos, Us, ksq, f, hi, bonus). nat (hi + 1 - f))") auto

definition shelter_center :: "'b bitboard_h \<Rightarrow> 'b Position \<Rightarrow> Square \<Rightarrow> File" where
  "shelter_center g pos ksq = clamp (file_of g ksq) FILE_B (max_file pos - 1)"

definition evaluate_shelter :: "'w::len word bitboard_h \<Rightarrow> 'w word Position \<Rightarrow> Color \<Rightarrow> Square
    \<Rightarrow> Score \<Rightarrow> Score" where
  "evaluate_shelter g pos Us ksq shelter =
     (let center = shelter_center g pos ksq;
          bonus = shelter_loop g pos Us ksq (center - 1) (center + 1) (make_score 5 5)
      in if mg_value bonus > mg_value shelter then bonus else shelter)"

subsection \<open>King safety: \<^verbatim>\<open>Entry::do_king_safety<Us>\<close>\<close>

text \<open>
  \<^verbatim>\<open>while (pawns) minPawnDist = std::min(minPawnDist, distance(ksq, pop_lsb(&pawns)))\<close>:
  \<^verbatim>\<open>pop_lsb\<close> returns the square of the lowest set bit and clears that bit
  (\<^verbatim>\<open>b &= b - 1\<close>).
\<close>

function min_dist_loop :: "'w::len word bitboard_h \<Rightarrow> Square \<Rightarrow> 'w word \<Rightarrow> int \<Rightarrow> int" where
  "min_dist_loop g ksq pawns minPawnDist =
     (if pawns \<noteq> 0
      then min_dist_loop g ksq (pawns AND (pawns - 1)) (min minPawnDist (distance g ksq (lsb pawns)))
      else minPawnDist)"
  by pat_completeness auto
termination
proof (relation "measure (\<lambda>(g, ksq, pawns, m). unat pawns)", goal_cases)
  case 1
  show ?case by simp
next
  case (2 g ksq pawns minPawnDist)
  have "pawns AND (pawns - 1) \<le> pawns - 1"
    by (rule word_and_le1)
  moreover have "pawns - 1 < pawns"
    using 2 by (simp add: word_less_nat_alt unat_minus_one unat_gt_0)
  ultimately have "pawns AND (pawns - 1) < pawns"
    by simp
  then show ?case
    by (simp add: word_less_nat_alt)
qed

text \<open>Lines 251 to 258: the local \<^verbatim>\<open>minPawnDist\<close> after the loop.\<close>

definition minPawnDist :: "'w::len word bitboard_h \<Rightarrow> 'w word Position \<Rightarrow> Color \<Rightarrow> int" where
  "minPawnDist g pos Us =
     (let ksq = square pos KING Us;
          pawns = pieces pos Us PAWN;
          m = (if pawns \<noteq> 0 then 8 else 0)
      in if pawns AND PseudoAttacks g Us KING ksq \<noteq> 0 then 1
         else min_dist_loop g ksq pawns m)"

text \<open>Lines 260 to 274: the shelter at the king's square and after each castling still allowed.\<close>

definition castling_square :: "'b bitboard_h \<Rightarrow> 'b Position \<Rightarrow> Color \<Rightarrow> File \<Rightarrow> Square" where
  "castling_square g pos Us f = make_square g f (if Us = WHITE then RANK_1 else max_rank pos)"

definition best_shelter :: "'w::len word bitboard_h \<Rightarrow> 'w word Position \<Rightarrow> Color \<Rightarrow> Score" where
  "best_shelter g pos Us =
     (let ksq = square pos KING Us;
          shelter = make_score (- VALUE_INFINITE) VALUE_ZERO;
          shelter1 = evaluate_shelter g pos Us ksq shelter;
          shelter2 = (if can_castle pos Us KING_SIDE
                      then evaluate_shelter g pos Us
                             (castling_square g pos Us (castling_kingside_file pos)) shelter1
                      else shelter1)
      in if can_castle pos Us QUEEN_SIDE
         then evaluate_shelter g pos Us
                (castling_square g pos Us (castling_queenside_file pos)) shelter2
         else shelter2)"

definition do_king_safety :: "'w::len word bitboard_h \<Rightarrow> 'w word Position \<Rightarrow> Color \<Rightarrow> 'w word Entry
    \<Rightarrow> Score \<times> 'w word Entry" where
  "do_king_safety g pos Us e =
     (let e1 = e\<lparr>kingSquares := (kingSquares e)(Us := square pos KING Us),
                 castlingRights := (castlingRights e)(Us := castling_rights pos Us)\<rparr>
      in (best_shelter g pos Us - make_score VALUE_ZERO (16 * minPawnDist g pos Us), e1))"

subsection \<open>A concrete board: chess on eight files and eight ranks\<close>

text \<open>
  Modelled from the spec: the helpers of bitboard.h and types.h (not among the sources) for
  the default build, a 64-bit bitboard with square \<open>8 * rank + file\<close>, in the meaning the
  spec's glossary and the comments of pawns.cpp give them: relative ranks count from a
  side's own back rank, forward ranks are the ranks in front of a square from a side's
  point of view, a pawn attacks the two squares diagonally in front of it, the passed-pawn
  span is the part of the pawn's file and of the adjacent files in front of it. The
  theorems about the code hold for every choice of helpers; this board is where they and
  the counterexamples are evaluated.
\<close>

definition rank_of8 :: "Square \<Rightarrow> Rank" where
  "rank_of8 s = s div 8"

definition file_of8 :: "Square \<Rightarrow> File" where
  "file_of8 s = s mod 8"

definition FileABB :: "64 word" where
  "FileABB = 0x0101010101010101"

definition FileHBB :: "64 word" where
  "FileHBB = 0x8080808080808080"

definition Rank1BB :: "64 word" where
  "Rank1BB = 0xFF"

definition file_bb8 :: "File \<Rightarrow> 64 word" where
  "file_bb8 f = push_bit (nat f) FileABB"

definition rank_bb8 :: "Square \<Rightarrow> 64 word" where
  "rank_bb8 s = push_bit (8 * nat (rank_of8 s)) Rank1BB"

definition shift8 :: "Direction \<Rightarrow> 64 word \<Rightarrow> 64 word" where
  "shift8 D b =
     (if D = 8 then push_bit 8 b
      else if D = - 8 then drop_bit 8 b
      else if D = 1 then push_bit 1 (b AND NOT FileHBB)
      else if D = - 1 then drop_bit 1 (b AND NOT FileABB)
      else if D = 9 then push_bit 9 (b AND NOT FileHBB)
      else if D = 7 then push_bit 7 (b AND NOT FileABB)
      else if D = - 7 then drop_bit 7 (b AND NOT FileHBB)
      else if D = - 9 then drop_bit 9 (b AND NOT FileABB)
      else 0)"

definition adjacent_files_bb8 :: "Square \<Rightarrow> 64 word" where
  "adjacent_files_bb8 s = shift8 1 (file_bb8 (file_of8 s)) OR shift8 (- 1) (file_bb8 (file_of8 s))"

definition forward_ranks_bb8 :: "Color \<Rightarrow> Square \<Rightarrow> 64 word" where
  "forward_ranks_bb8 c s =
     (if c = WHITE then push_bit (8 * (nat (rank_of8 s) + 1)) (- 1)
      else mask (8 * nat (rank_of8 s)))"

definition forward_file_bb8 :: "Color \<Rightarrow> Square \<Rightarrow> 64 word" where
  "forward_file_bb8 c s = forward_ranks_bb8 c s AND file_bb8 (file_of8 s)"

definition pawn_attack_span8 :: "Color \<Rightarrow> Square \<Rightarrow> 64 word" where
  "pawn_attack_span8 c s = forward_ranks_bb8 c s AND adjacent_files_bb8 s"

definition passed_pawn_span8 :: "Color \<Rightarrow> Square \<Rightarrow> 64 word" where
  "passed_pawn_span8 c s =
     forward_ranks_bb8 c s AND (adjacent_files_bb8 s OR file_bb8 (file_of8 s))"

definition pawn_attacks_bb8 :: "Color \<Rightarrow> 64 word \<Rightarrow> 64 word" where
  "pawn_attacks_bb8 c b =
     (if c = WHITE then shift8 7 b OR shift8 9 b else shift8 (- 9) b OR shift8 (- 7) b)"

definition pawn_double_attacks_bb8 :: "Color \<Rightarrow> 64 word \<Rightarrow> 64 word" where
  "pawn_double_attacks_bb8 c b =
     (if c = WHITE then shift8 7 b AND shift8 9 b else shift8 (- 9) b AND shift8 (- 7) b)"

definition king_attacks8 :: "Square \<Rightarrow> 64 word" where
  "king_attacks8 s =
     (let b = square_bb s;
          row = b OR shift8 1 b OR shift8 (- 1) b
      in (row OR shift8 8 row OR shift8 (- 8) row) AND NOT b)"

definition PseudoAttacks8 :: "Color \<Rightarrow> PieceType \<Rightarrow> Square \<Rightarrow> 64 word" where
  "PseudoAttacks8 c pt s =
     (if pt = PAWN then pawn_attacks_bb8 c (square_bb s)
      else if pt = KING then king_attacks8 s
      else 0)"

definition relative_rank8 :: "Color \<Rightarrow> Square \<Rightarrow> Rank \<Rightarrow> Rank" where
  "relative_rank8 c s mr = (if c = WHITE then rank_of8 s else mr - rank_of8 s)"

definition msb :: "'w::len word \<Rightarrow> Square" where
  "msb b = (case find (bit b) (rev [0..<LENGTH('w)]) of Some n \<Rightarrow> int n | None \<Rightarrow> 0)"

definition frontmost_sq8 :: "Color \<Rightarrow> 64 word \<Rightarrow> Square" where
  "frontmost_sq8 c b = (if c = WHITE then msb b else lsb b)"

definition distance8 :: "Square \<Rightarrow> Square \<Rightarrow> int" where
  "distance8 x y = max \<bar>file_of8 x - file_of8 y\<bar> \<bar>rank_of8 x - rank_of8 y\<bar>"

definition chess8 :: "64 word bitboard_h" where
  "chess8 =
     \<lparr>NORTH = 8, SQ_NONE = 64, is_ok = (\<lambda>s. 0 \<le> s \<and> s \<le> 63),
      file_of = file_of8, make_square = (\<lambda>f r. r * 8 + f),
      relative_rank = relative_rank8, file_bb = file_bb8, rank_bb = rank_bb8,
      adjacent_files_bb = adjacent_files_bb8, forward_ranks_bb = forward_ranks_bb8,
      forward_file_bb = forward_file_bb8, passed_pawn_span = passed_pawn_span8,
      pawn_attack_span = pawn_attack_span8, PseudoAttacks = PseudoAttacks8,
      pawn_attacks_bb = pawn_attacks_bb8, pawn_double_attacks_bb = pawn_double_attacks_bb8,
      shift = shift8, frontmost_sq = frontmost_sq8, distance = distance8\<rparr>"

text \<open>
  A position of kings, pawns and shogi pawns on that board, from its hash key and the
  squares of the white and black pawns, of the white and black shogi pawns and of the two
  kings; no castling rights, no variant rule. The piece lists end with \<^verbatim>\<open>SQ_NONE\<close>.
\<close>

definition squares_bb :: "Square list \<Rightarrow> 64 word" where
  "squares_bb ss = fold (\<lambda>s b. b OR square_bb s) ss 0"

definition kp_squares :: "Square list \<Rightarrow> Square list \<Rightarrow> Square list \<Rightarrow> Square list \<Rightarrow> Square \<Rightarrow> Square
    \<Rightarrow> PieceType \<Rightarrow> Color \<Rightarrow> Square list" where
  "kp_squares wp bp ws bs wk bk pt c =
     (case pt of
        PAWN \<Rightarrow> (if c = WHITE then wp else bp)
      | SHOGI_PAWN \<Rightarrow> (if c = WHITE then ws else bs)
      | KING \<Rightarrow> [if c = WHITE then wk else bk]
      | ALL_PIECES \<Rightarrow> (if c = WHITE then wk # wp @ ws else bk # bp @ bs))"

definition kp_position :: "Key \<Rightarrow> Square list \<Rightarrow> Square list \<Rightarrow> Square list \<Rightarrow> Square list
    \<Rightarrow> Square \<Rightarrow> Square \<Rightarrow> 64 word Position" where
  "kp_position k wp bp ws bs wk bk =
     \<lparr>pawn_key = k,
      pieces = (\<lambda>c pt. squares_bb (kp_squares wp bp ws bs wk bk pt c)),
      pieces_pt = (\<lambda>pt. squares_bb (kp_squares wp bp ws bs wk bk pt WHITE)
                        OR squares_bb (kp_squares wp bp ws bs wk bk pt BLACK)),
      pieces_pt2 = (\<lambda>pt1 pt2. squares_bb (kp_squares wp bp ws bs wk bk pt1 WHITE)
                        OR squares_bb (kp_squares wp bp ws bs wk bk pt1 BLACK)
                        OR squares_bb (kp_squares wp bp ws bs wk bk pt2 WHITE)
                        OR squares_bb (kp_squares wp bp ws bs wk bk pt2 BLACK)),
      pieces_c = (\<lambda>c. squares_bb (kp_squares wp bp ws bs wk bk ALL_PIECES c)),
      squares = (\<lambda>pt c. kp_squares wp bp ws bs wk bk pt c @ [64]),
      count = (\<lambda>pt c. int (length (kp_squares wp bp ws bs wk bk pt c))),
      square = (\<lambda>pt c. hd (kp_squares wp bp ws bs wk bk pt c @ [64])),
      board_bb = - 1,
      max_rank = 7,
      max_file = 7,
      captures_to_hand = False,
      must_capture = False,
      castling_rights = (\<lambda>c. 0),
      can_castle = (\<lambda>c cs. False),
      castling_kingside_file = 6,
      castling_queenside_file = 2\<rparr>"

text \<open>An entry as the table holds it before its first use: all fields zero.\<close>

definition zero_entry :: "64 word Entry" where
  "zero_entry =
     \<lparr>key = 0, scores = (\<lambda>c. SCORE_ZERO), passedPawns = (\<lambda>c. 0), pawnAttacksSpan = (\<lambda>c. 0),
      pawnAttacks = (\<lambda>c. 0), kingSquares = (\<lambda>c. 0), castlingRights = (\<lambda>c. 0)\<rparr>"

text \<open>
  Positions used below. Squares: a1 is 0, h1 is 7, a2 is 8, e4 is 28, h8 is 63.
  \<open>pos_lever\<close>: a white pawn on e4 against black pawns on d5, e5 and f5.
  \<open>pos_soft\<close>: the same with a white shogi pawn on a1, under another key.
\<close>

definition pos_lever :: "64 word Position" where
  "pos_lever = kp_position 5 [28] [35, 37, 36] [] [] 4 60"

definition pos_soft :: "64 word Position" where
  "pos_soft = kp_position 7 [28] [35, 37, 36] [0] [] 4 60"

text \<open>
  \<open>pos_bare\<close>: the two kings alone, the white one on g1.
  \<open>pos_shield\<close>: the white king on g1 behind pawns on f2, g2 and h2.
  \<open>pos_far\<close>: the white king on g1, white pawns on a2 and a7.
\<close>

definition pos_bare :: "64 word Position" where
  "pos_bare = kp_position 11 [] [] [] [] 6 60"

definition pos_shield :: "64 word Position" where
  "pos_shield = kp_position 9 [13, 14, 15] [] [] [] 6 60"

definition pos_far :: "64 word Position" where
  "pos_far = kp_position 13 [8, 48] [] [] [] 6 60"

text \<open>
  \<open>pos_doubled\<close>: white pawns on e3, e4 and d4.
  \<open>pos_behind\<close>: white pawns on d2 and e4, a black pawn on e5.
\<close>

definition pos_doubled :: "64 word Position" where
  "pos_doubled = kp_position 17 [20, 28, 27] [] [] [] 4 60"

definition pos_behind :: "64 word Position" where
  "pos_behind = kp_position 19 [11, 28] [36] [] [] 4 60"

text \<open>
  \<open>pos_front\<close>: white pawns on e5 and d4, a black pawn on e6.
  \<open>pos_pair\<close>: white pawns on d4 and e4.
  \<open>pos_hand\<close>: white pawns on d2 and e2, captured pieces go to hand.
\<close>

definition pos_front :: "64 word Position" where
  "pos_front = kp_position 23 [36, 27] [44] [] [] 6 62"

definition pos_pair :: "64 word Position" where
  "pos_pair = kp_position 31 [27, 28] [] [] [] 6 62"

definition pos_hand :: "64 word Position" where
  "pos_hand = (kp_position 29 [11, 12] [] [] [] 6 62)\<lparr>captures_to_hand := True\<rparr>"

definition empty_table :: "nat \<Rightarrow> 64 word Entry" where
  "empty_table = (\<lambda>i. zero_entry)"

section \<open>What the loops compute\<close>

text \<open>
  The pawn loop threads the score and the entry. Its result is described by three functions
  of the piece list alone: the score, the bitboard of the pawns flagged as passed and the
  union of the attack spans.
\<close>

fun loop_score :: "'w::len word bitboard_h \<Rightarrow> 'w word Position \<Rightarrow> Color \<Rightarrow> Square list \<Rightarrow> Score \<Rightarrow> Score" where
  "loop_score g pos Us [] score = score"
| "loop_score g pos Us (s # pl) score =
     (if s = SQ_NONE g then score else loop_score g pos Us pl (score_pawn g pos Us s score))"

definition passed_flag :: "'w::len word bitboard_h \<Rightarrow> 'w word Position \<Rightarrow> Color \<Rightarrow> Square \<Rightarrow> 'w word" where
  "passed_flag g pos Us s =
     (if passed g pos Us s \<and> is_ok g (s + Up g Us) then square_bb s else 0)"

fun loop_passed :: "'w::len word bitboard_h \<Rightarrow> 'w word Position \<Rightarrow> Color \<Rightarrow> Square list \<Rightarrow> 'w word" where
  "loop_passed g pos Us [] = 0"
| "loop_passed g pos Us (s # pl) =
     (if s = SQ_NONE g then 0 else passed_flag g pos Us s OR loop_passed g pos Us pl)"

fun loop_span :: "'w::len word bitboard_h \<Rightarrow> Color \<Rightarrow> Square list \<Rightarrow> 'w word" where
  "loop_span g Us [] = 0"
| "loop_span g Us (s # pl) =
     (if s = SQ_NONE g then 0 else pawn_attack_span g Us s OR loop_span g Us pl)"

definition or_flags :: "Color \<Rightarrow> 'w::len word \<Rightarrow> 'w word \<Rightarrow> 'w word Entry \<Rightarrow> 'w word Entry" where
  "or_flags Us p q e =
     e\<lparr>passedPawns := (passedPawns e)(Us := passedPawns e Us OR p),
       pawnAttacksSpan := (pawnAttacksSpan e)(Us := pawnAttacksSpan e Us OR q)\<rparr>"

text \<open>
  Which branch of "Score this pawn" (lines 131 to 147) a pawn takes: the connected bonus,
  the isolated penalty, the backward penalty or none of them; and whether the doubled
  penalty of lines 146 and 147 is applied.
\<close>

definition connected_branch :: "'w::len word bitboard_h \<Rightarrow> 'w word Position \<Rightarrow> Color \<Rightarrow> Square \<Rightarrow> bool" where
  "connected_branch g pos Us s \<longleftrightarrow> support g pos Us s OR phalanx g pos Us s \<noteq> 0"

definition isolated_branch :: "'w::len word bitboard_h \<Rightarrow> 'w word Position \<Rightarrow> Color \<Rightarrow> Square \<Rightarrow> bool" where
  "isolated_branch g pos Us s \<longleftrightarrow> \<not> connected_branch g pos Us s \<and> neighbours g pos Us s = 0"

definition backward_branch :: "'w::len word bitboard_h \<Rightarrow> 'w word Position \<Rightarrow> Color \<Rightarrow> Square \<Rightarrow> bool" where
  "backward_branch g pos Us s \<longleftrightarrow>
     \<not> connected_branch g pos Us s \<and> neighbours g pos Us s \<noteq> 0 \<and> backward g pos Us s"

definition no_branch :: "'w::len word bitboard_h \<Rightarrow> 'w word Position \<Rightarrow> Color \<Rightarrow> Square \<Rightarrow> bool" where
  "no_branch g pos Us s \<longleftrightarrow>
     \<not> connected_branch g pos Us s \<and> neighbours g pos Us s \<noteq> 0 \<and> \<not> backward g pos Us s"

definition doubled_penalty :: "'w::len word bitboard_h \<Rightarrow> 'w word Position \<Rightarrow> Color \<Rightarrow> Square \<Rightarrow> bool" where
  "doubled_penalty g pos Us s \<longleftrightarrow> doubled g pos Us s \<noteq> 0 \<and> support g pos Us s = 0"

text \<open>The score of a side as a function of the position alone.\<close>

definition pawn_score :: "'w::len word bitboard_h \<Rightarrow> 'w word Position \<Rightarrow> Color \<Rightarrow> Score" where
  "pawn_score g pos Us =
     finish_score g pos Us
       (loop_score g pos Us (squares pos PAWN Us) SCORE_ZERO
        - score_mul WeakLever
            (popcount (ourPawns pos Us AND doubleAttackThem g pos Us
               AND NOT (pawn_attacks_bb g Us (ourPawns pos Us)
                        OR loop_passed g pos Us (squares pos PAWN Us)))))"

text \<open>The entry that probe leaves in the slot when it recomputes.\<close>

definition recomputed :: "'w::len word bitboard_h \<Rightarrow> 'w word Position \<Rightarrow> 'w word Entry \<Rightarrow> 'w word Entry" where
  "recomputed g pos e =
     e\<lparr>key := pawn_key pos,
       scores := (\<lambda>c. pawn_score g pos c),
       passedPawns := (\<lambda>c. loop_passed g pos c (squares pos PAWN c)),
       pawnAttacksSpan := (\<lambda>c. loop_span g c (squares pos PAWN c)),
       pawnAttacks := (\<lambda>c. pawn_attacks_bb g c (ourPawns pos c)),
       kingSquares := (\<lambda>c. SQ_NONE g)\<rparr>"

text \<open>
  Modelled from the spec: the caller's test whether king safety must be computed again
  (\<^verbatim>\<open>Entry::king_safety\<close> of pawns.h, not among the sources). The entry keeps "the king
  square and castling-rights bitmask as of the last time king-safety was recomputed", and
  king safety is recomputed "only when the king square or castling rights actually change".
\<close>

definition king_safety_cached :: "'b Entry \<Rightarrow> 'b Position \<Rightarrow> Color \<Rightarrow> bool" where
  "king_safety_cached e pos Us \<longleftrightarrow>
     kingSquares e Us = square pos KING Us \<and> castlingRights e Us = castling_rights pos Us"

section \<open>The spec's wording of the claims that the code does not meet\<close>

text \<open>
  The pawn distance as the spec words it: "the minimum distance from the king to any own
  pawn (1 if a pawn is already king-adjacent; 8 if the side has none)".
\<close>

definition spec_minPawnDist :: "'w::len word bitboard_h \<Rightarrow> 'w word Position \<Rightarrow> Color \<Rightarrow> int" where
  "spec_minPawnDist g pos Us =
     (let ksq = square pos KING Us;
          pawns = pieces pos Us PAWN
      in if pawns = 0 then 8
         else if pawns AND PseudoAttacks g Us KING ksq \<noteq> 0 then 1
         else Min ((\<lambda>n. distance g ksq (int n)) ` {n. bit pawns n}))"

text \<open>
  The index as the spec words it: "file distance from the king's file, clamped to a
  maximum index of 3".
\<close>

definition spec_shelter_d :: "'b bitboard_h \<Rightarrow> Square \<Rightarrow> File \<Rightarrow> int" where
  "spec_shelter_d g ksq f = min \<bar>f - file_of g ksq\<bar> 3"

text \<open>
  The weak levers as the spec words them: an own pawn that is "(a) hit twice by enemy
  pawns, (b) not itself attacking anything, and (c) not already flagged passed". A pawn
  attacks nothing when no enemy piece stands on a square it attacks.
\<close>

definition attacks_nothing :: "'w::len word bitboard_h \<Rightarrow> 'w word Position \<Rightarrow> Color \<Rightarrow> Square \<Rightarrow> bool" where
  "attacks_nothing g pos Us s \<longleftrightarrow> PseudoAttacks g Us PAWN s AND pieces_c pos (Them Us) = 0"

definition spec_weak_levers :: "'w::len word bitboard_h \<Rightarrow> 'w word Position \<Rightarrow> Color \<Rightarrow> 'w word Entry \<Rightarrow> nat set" where
  "spec_weak_levers g pos Us e =
     {n. bit (ourPawns pos Us) n \<and> bit (doubleAttackThem g pos Us) n
         \<and> attacks_nothing g pos Us (int n) \<and> \<not> bit (passedPawns e Us) n}"

text \<open>
  Backward as the spec words it: "no own neighbour pawn is strictly ahead AND the forward
  square is on-board AND stoppers intersect either leverPush or the immediate forward
  square". The ranks ahead of a square are the forward ranks from the side's own point of
  view.
\<close>

definition spec_backward :: "'w::len word bitboard_h \<Rightarrow> 'w word Position \<Rightarrow> Color \<Rightarrow> Square \<Rightarrow> bool" where
  "spec_backward g pos Us s \<longleftrightarrow>
       neighbours g pos Us s AND forward_ranks_bb g Us s = 0
     \<and> is_ok g (s + Up g Us)
     \<and> stoppers g pos Us s AND (leverPush g pos Us s OR square_bb (s + Up g Us)) \<noteq> 0"

text \<open>
  Passed as the spec words it: "(a) every stopper is also a lever, or (b) the stoppers equal
  the leverPush set and the phalanx count is at least the leverPush count, or (c) there is
  exactly one stopper sitting on the immediate forward square, the pawn is on at least its
  5th relative rank, and advancing the support pawns lands on squares not controlled or
  doubly-attacked by the enemy". A square is controlled by the enemy when an enemy pawn
  attacks it.
\<close>

definition enemy_pawn_control :: "'w::len word bitboard_h \<Rightarrow> 'w word Position \<Rightarrow> Color \<Rightarrow> 'w word" where
  "enemy_pawn_control g pos Us = pawn_attacks_bb g (Them Us) (theirPawns pos Us)"

definition spec_passed :: "'w::len word bitboard_h \<Rightarrow> 'w word Position \<Rightarrow> Color \<Rightarrow> Square \<Rightarrow> bool" where
  "spec_passed g pos Us s \<longleftrightarrow>
       stoppers g pos Us s AND NOT (lever g pos Us s) = 0
     \<or> (stoppers g pos Us s = leverPush g pos Us s
        \<and> popcount (phalanx g pos Us s) \<ge> popcount (leverPush g pos Us s))
     \<or> (is_ok g (s + Up g Us) \<and> stoppers g pos Us s = square_bb (s + Up g Us)
        \<and> pawn_rank g pos Us s \<ge> RANK_5
        \<and> shift g (Up g Us) (support g pos Us s)
            AND (enemy_pawn_control g pos Us OR doubleAttackThem g pos Us) = 0)"

text \<open>
  The connected bonus as the spec words it, with one number \<open>rr\<close> for the relative rank in
  all four places: "Connected[relativeRank] * (3 if phalanx else 2) * (3 if the pawn is on
  rank 2 and the captures-to-hand variant rule is active, else 1), integer-divided by 2 when
  opposed, plus 17 * |support|; when the relative rank is at least 4 and the side's pawn
  count exceeds one quarter of the board's squares, the bonus is floored at
  50 * |support \<union> phalanx| and then halved if opposed; the midgame component equals the
  bonus and the endgame component equals bonus * (relativeRank - 2) / 4". The parameter
  \<open>first\<close> is the number of a side's own back rank: 1 as the spec counts ranks
  ("indexed by relative rank 1..7", the first entry of \<^verbatim>\<open>Connected\<close> belonging to rank
  1), or 0 as the code's enum does.
\<close>

definition spec_connected_bonus :: "int \<Rightarrow> 'w::len word bitboard_h \<Rightarrow> 'w word Position \<Rightarrow> Color \<Rightarrow> Square \<Rightarrow> Score" where
  "spec_connected_bonus first g pos Us s =
     (let rr = pawn_rank g pos Us s + first;
          half = (if opposed g pos Us s then 2 else 1);
          b0 = (array_at Connected (rr - first) * (if phalanx g pos Us s \<noteq> 0 then 3 else 2)
                  * (if rr = 2 \<and> captures_to_hand pos then 3 else 1)) sdiv half
               + 17 * popcount (support g pos Us s);
          bonus = (if rr \<ge> 4 \<and> count pos PAWN Us > popcount (board_bb pos) sdiv 4
                   then max b0 (50 * popcount (support g pos Us s OR phalanx g pos Us s)) sdiv half
                   else b0)
      in make_score bonus ((bonus * (rr - 2)) sdiv 4))"

section \<open>Lemmas\<close>

lemma popcount_card:
  fixes b :: "'w::len word"
  shows "popcount b = int (card {n. bit b n})"
proof -
  have "{i. i < length [0..<LENGTH('w)] \<and> bit b ([0..<LENGTH('w)] ! i)} = {n. bit b n}"
    by (auto simp: bit_imp_le_length)
  then show ?thesis
    by (simp only: popcount_def length_filter_conv_card)
qed

lemma finite_bits: "finite {n. bit (b :: 'w::len word) n}"
  by (rule finite_subset[of _ "{..<LENGTH('w)}"]) (auto simp: bit_imp_le_length)

lemma find_least:
  "find P [i..<j] = Some n \<longleftrightarrow> i \<le> n \<and> n < j \<and> P n \<and> (\<forall>k. i \<le> k \<and> k < n \<longrightarrow> \<not> P k)"
  apply (simp add: find_Some_iff)
  apply (rule iffI)
   apply (elim exE conjE)
   apply (auto)[1]
   apply (metis nat_add_left_cancel_less le_Suc_ex)
  apply (rule_tac x="n - i" in exI)
  apply auto
  done

lemma lsb_props:
  fixes b :: "'w::len word"
  assumes "b \<noteq> 0"
  shows "\<exists>n. lsb b = int n \<and> bit b n \<and> (\<forall>k<n. \<not> bit b k)"
proof -
  from assms obtain m where m: "bit b m"
    by (auto simp: bit_eq_iff)
  define n where "n = (LEAST k. bit b k)"
  have bn: "bit b n" unfolding n_def using m by (rule LeastI)
  have least: "\<And>k. k < n \<Longrightarrow> \<not> bit b k" unfolding n_def by (rule not_less_Least)
  have nlt: "n < LENGTH('w)" using bn by (simp add: bit_imp_le_length)
  have "find (bit b) [0..<LENGTH('w)] = Some n"
    unfolding find_least using bn least nlt by auto
  then show ?thesis using bn least by (auto simp: lsb_def)
qed

lemma bit_decr_lowest:
  fixes b :: "'w::len word"
  assumes bn: "bit b n" and least: "\<And>k. k < n \<Longrightarrow> \<not> bit b k"
  shows "bit (b - 1) m \<longleftrightarrow> m < n \<or> (n < m \<and> bit b m)"
proof -
  define c where "c = b AND NOT (mask (Suc n))"
  have nlt: "n < LENGTH('w)" using bn by (simp add: bit_imp_le_length)
  have d1: "c AND push_bit n 1 = 0"
    by (rule bit_eqI) (auto simp: c_def bit_simps)
  have d2: "c AND mask n = 0"
    by (rule bit_eqI) (auto simp: c_def bit_simps)
  have "b = c OR push_bit n 1"
  proof (rule bit_eqI)
    fix k assume "possible_bit TYPE('w word) k"
    then show "bit b k = bit (c OR push_bit n 1) k"
      using bn least[of k] by (cases "k < n"; cases "k = n") (auto simp: c_def bit_simps)
  qed
  also have "\<dots> = c + push_bit n 1"
    using d1 by (simp add: disjunctive_add_eq_or)
  finally have "b - 1 = c + (2 ^ n - 1)"
    by (simp add: push_bit_eq_mult)
  also have "\<dots> = c + mask n"
    by (simp add: mask_eq_exp_minus_1)
  also have "\<dots> = c OR mask n"
    using d2 by (simp add: disjunctive_add_eq_or)
  finally have e: "b - 1 = c OR mask n" .
  show ?thesis
    using nlt by (auto simp: e c_def bit_simps bit_imp_le_length)
qed

lemma pop_lsb_bits:
  fixes b :: "'w::len word"
  assumes "b \<noteq> 0"
  shows "{n. bit b n} = insert (nat (lsb b)) {n. bit (b AND (b - 1)) n}"
    and "nat (lsb b) \<notin> {n. bit (b AND (b - 1)) n}"
    and "0 \<le> lsb b"
proof -
  from lsb_props[OF assms] obtain n where n: "lsb b = int n" "bit b n" "\<forall>k<n. \<not> bit b k"
    by blast
  then have dec: "\<And>m. bit (b - 1) m \<longleftrightarrow> m < n \<or> (n < m \<and> bit b m)"
    using bit_decr_lowest[of b n] by blast
  show "{n. bit b n} = insert (nat (lsb b)) {n. bit (b AND (b - 1)) n}"
    using n dec by (auto simp: bit_and_iff)
  show "nat (lsb b) \<notin> {n. bit (b AND (b - 1)) n}"
    using n dec by (auto simp: bit_and_iff)
  show "0 \<le> lsb b" using n by simp
qed

lemma popcount_zero: "popcount 0 = 0"
  by (simp add: popcount_card)

lemma popcount_step:
  fixes b :: "'w::len word"
  assumes "b \<noteq> 0"
  shows "popcount b = 1 + popcount (b AND (b - 1))"
  using pop_lsb_bits(1,2)[OF assms] finite_bits[of "b AND (b - 1)"]
  by (simp add: popcount_card)

lemma popcount_numeral:
  "popcount (numeral k :: 'w::len word) =
     (if (numeral k :: 'w word) = 0 then 0
      else 1 + popcount ((numeral k :: 'w word) AND (numeral k - 1)))"
proof (cases "(numeral k :: 'w word) = 0")
  case True
  then show ?thesis
    by (simp only: popcount_zero simp_thms if_True)
next
  case False
  then show ?thesis
    by (simp only: popcount_step[OF False] if_False)
qed

lemma popcount_all_64: "popcount (- 1 :: 64 word) = 64"
  by (simp add: popcount_card)

lemma min_insert_Min:
  assumes "finite S"
  shows "Min (insert (min m d) S) = Min (insert m (insert d S))"
proof (cases "S = {}")
  case True
  then show ?thesis by (simp add: min.commute)
next
  case False
  then show ?thesis
    using assms by (simp add: min.assoc)
qed

lemma min_dist_loop_eq:
  "min_dist_loop g ksq b m = Min (insert m ((\<lambda>n. distance g ksq (int n)) ` {n. bit b n}))"
proof (induction g ksq b m rule: min_dist_loop.induct)
  case (1 g ksq pawns m)
  show ?case
  proof (cases "pawns = 0")
    case True
    then have e: "{n. bit pawns n} = {}"
      by auto
    show ?thesis
      unfolding e by (subst min_dist_loop.simps) (simp add: True)
  next
    case False
    define d where "d = distance g ksq (lsb pawns)"
    define S where "S = (\<lambda>n. distance g ksq (int n)) ` {n. bit (pawns AND (pawns - 1)) n}"
    have fin: "finite S"
      unfolding S_def by (rule finite_imageI) (rule finite_bits)
    have bits: "{n. bit pawns n} = insert (nat (lsb pawns)) {n. bit (pawns AND (pawns - 1)) n}"
      using False by (rule pop_lsb_bits(1))
    have "0 \<le> lsb pawns"
      using False by (rule pop_lsb_bits(3))
    then have img: "(\<lambda>n. distance g ksq (int n)) ` {n. bit pawns n} = insert d S"
      by (simp add: bits d_def S_def)
    have "min_dist_loop g ksq pawns m = min_dist_loop g ksq (pawns AND (pawns - 1)) (min m d)"
      using False by (subst min_dist_loop.simps) (simp add: d_def)
    also have "\<dots> = Min (insert (min m d) S)"
      using "1.IH"[OF False] by (simp add: d_def S_def)
    also have "\<dots> = Min (insert m (insert d S))"
      using fin by (rule min_insert_Min)
    finally show ?thesis
      by (simp add: img)
  qed
qed

lemma or_flags_zero: "or_flags Us 0 0 e = e"
  by (simp add: or_flags_def)

lemma or_flags_or_flags:
  "or_flags Us p q (or_flags Us p' q' e) = or_flags Us (p' OR p) (q' OR q) e"
  by (simp add: or_flags_def or.assoc)

lemma flag_pawn_eq:
  "flag_pawn g pos Us s e = or_flags Us (passed_flag g pos Us s) (pawn_attack_span g Us s) e"
  by (simp add: flag_pawn_def or_flags_def passed_flag_def Let_def)

lemma pawn_loop_eq:
  "pawn_loop g pos Us pl (sc, e) =
     (loop_score g pos Us pl sc, or_flags Us (loop_passed g pos Us pl) (loop_span g Us pl) e)"
proof (induction pl arbitrary: sc e)
  case Nil
  show ?case by (simp add: or_flags_zero)
next
  case (Cons s pl)
  show ?case
    by (simp add: Cons.IH flag_pawn_eq or_flags_or_flags or_flags_zero)
qed

lemma evaluate_eq:
  "evaluate g pos Us e =
     (pawn_score g pos Us,
      e\<lparr>passedPawns := (passedPawns e)(Us := loop_passed g pos Us (squares pos PAWN Us)),
        pawnAttacksSpan := (pawnAttacksSpan e)(Us := loop_span g Us (squares pos PAWN Us)),
        kingSquares := (kingSquares e)(Us := SQ_NONE g),
        pawnAttacks := (pawnAttacks e)(Us := pawn_attacks_bb g Us (ourPawns pos Us))\<rparr>)"
  by (simp add: evaluate_def pawn_loop_eq reset_entry_def after_loop_def weak_lever_bb_def
      pawn_score_def Let_def or_flags_def)

lemma both_colors: "f(WHITE := a, BLACK := b) = (\<lambda>c. if c = WHITE then a else b)"
  by (rule ext, rename_tac c, case_tac c) simp_all

lemma color_if: "(\<lambda>c. if c = WHITE then h WHITE else h BLACK) = h"
  by (rule ext, rename_tac c, case_tac c) simp_all

lemma probe_hit:
  "key (pawnsTable (table_slot Size (pawn_key pos))) = pawn_key pos
   \<Longrightarrow> pieces_pt pos SHOGI_PAWN = 0
   \<Longrightarrow> probe Size g pos pawnsTable = (table_slot Size (pawn_key pos), pawnsTable)"
  by (simp add: probe_def Let_def)

lemma probe_miss:
  "\<not> (key (pawnsTable (table_slot Size (pawn_key pos))) = pawn_key pos
       \<and> pieces_pt pos SHOGI_PAWN = 0)
   \<Longrightarrow> probe Size g pos pawnsTable =
       (table_slot Size (pawn_key pos),
        pawnsTable(table_slot Size (pawn_key pos) :=
          recomputed g pos (pawnsTable (table_slot Size (pawn_key pos)))))"
  unfolding probe_def Let_def recomputed_def
  by (auto simp add: evaluate_eq both_colors color_if[of "pawn_score g pos"]
      color_if[of "\<lambda>c. loop_passed g pos c (squares pos PAWN c)"]
      color_if[of "\<lambda>c. loop_span g c (squares pos PAWN c)"]
      color_if[of "\<lambda>c. pawn_attacks_bb g c (ourPawns pos c)"])

lemma recomputed_idem: "recomputed g pos (recomputed g pos e) = recomputed g pos e"
  by (simp add: recomputed_def)

text \<open>Rules to evaluate the model on the concrete board with the simplifier.\<close>

lemmas board_eval = chess8_def rank_of8_def file_of8_def FileABB_def FileHBB_def Rank1BB_def
  file_bb8_def rank_bb8_def shift8_def adjacent_files_bb8_def forward_ranks_bb8_def
  forward_file_bb8_def pawn_attack_span8_def passed_pawn_span8_def pawn_attacks_bb8_def
  pawn_double_attacks_bb8_def king_attacks8_def PseudoAttacks8_def relative_rank8_def
  frontmost_sq8_def distance8_def square_bb_def squares_bb_def kp_squares_def kp_position_def
  zero_entry_def mask_eq_exp_minus_1 popcount_numeral popcount_zero popcount_all_64 Let_def

lemmas score_eval = Isolated_def WeakUnopposed_def Backward_def Doubled_def WeakLever_def
  Connected_def array_at_def array2_at_def score_mul_def score_div_def plus_Score_def
  minus_Score_def zero_Score_def ShelterStrength_def UnblockedStorm_def

lemmas pawn_eval = Them_def Up_def SOUTH_def ourPawns_def theirPawns_def doubleAttackThem_def
  pawn_rank_def opposed_def stoppers_def lever_def leverPush_def doubled_def neighbours_def
  phalanx_def support_def backward_def passed_def connected_v_def score_pawn_def flag_pawn_def
  weak_lever_bb_def reset_entry_def finish_score_def after_loop_def evaluate_def

lemmas king_eval = Them_def clamp_def shelter_ourPawns_def shelter_theirPawns_def
  rank_on_file_def shelter_d_def shelter_term_def shelter_file_def shelter_center_def evaluate_shelter_def
  minPawnDist_def castling_square_def best_shelter_def do_king_safety_def

lemma pos_lever_white_score:
  "fst (evaluate chess8 pos_lever WHITE zero_entry) = make_score (- 5) (- 71)"
  by (simp add: pos_lever_def board_eval score_eval pawn_eval)

lemma pos_lever_black_score:
  "fst (evaluate chess8 pos_lever BLACK zero_entry) = make_score 90 22"
  by (simp add: pos_lever_def board_eval score_eval pawn_eval)

section \<open>The hash table lookup\<close>

text \<open>
  C1. For every position, probe returns the entry of the slot \<open>key mod Size\<close>, and that
  entry stores the position's pawn key. If the slot already stored the key and the position
  has no shogi pawns, the table is left as it was (nothing is recomputed). In every other
  case the slot is overwritten, and the scores of both colours in it are the ones the
  per-side evaluation computes for this position, whatever the slot held before: the scores
  of a position that used the slot earlier are never returned for a position with another
  key.
\<close>

theorem probe_hit_or_recompute:
  "let k = pawn_key pos; i = table_slot Size k; e = pawnsTable i;
       r = probe Size g pos pawnsTable; e' = snd r (fst r)
   in fst r = i \<and> key e' = k
      \<and> (if key e = k \<and> pieces_pt pos SHOGI_PAWN = 0
         then snd r = pawnsTable
         else snd r = pawnsTable(i := e')
              \<and> (\<forall>e0. scores e' WHITE = fst (evaluate g pos WHITE e0))
              \<and> (\<forall>e0. scores e' BLACK = fst (evaluate g pos BLACK e0)))"
proof (cases "key (pawnsTable (table_slot Size (pawn_key pos))) = pawn_key pos
              \<and> pieces_pt pos SHOGI_PAWN = 0")
  case True
  then show ?thesis
    by (simp add: probe_hit Let_def)
next
  case False
  have "probe Size g pos pawnsTable =
       (table_slot Size (pawn_key pos),
        pawnsTable(table_slot Size (pawn_key pos) :=
          recomputed g pos (pawnsTable (table_slot Size (pawn_key pos)))))"
    using False by (rule probe_miss)
  with False show ?thesis
    by (auto simp add: Let_def evaluate_eq recomputed_def)
qed

theorem probe_hit_or_recompute_witness:
  "fst (probe 16 chess8 pos_lever empty_table) = 5
   \<and> key (snd (probe 16 chess8 pos_lever empty_table) 5) = 5
   \<and> scores (snd (probe 16 chess8 pos_lever empty_table) 5) WHITE = make_score (- 5) (- 71)
   \<and> scores (snd (probe 16 chess8 pos_lever empty_table) 5) BLACK = make_score 90 22"
proof -
  have k: "pawn_key pos_lever = 5"
    by (simp add: pos_lever_def kp_position_def)
  have i: "table_slot 16 5 = 5"
    by (simp add: table_slot_def)
  have miss: "key (empty_table 5) \<noteq> 5"
    by (simp add: empty_table_def zero_entry_def)
  show ?thesis
    using probe_hit_or_recompute[where pos = pos_lever and Size = 16 and g = chess8
        and pawnsTable = empty_table]
      pos_lever_white_score pos_lever_black_score miss
    by (auto simp add: Let_def k i)
qed

text \<open>
  C9. Probing the same position twice in a row, the second call on the table the first one
  left, returns the same slot, and the entry read through it has the same scores, passed
  pawns, pawn attacks and attack spans both times. Nothing is assumed about shogi pawns:
  when they are present both calls recompute, and the result is still the same.
\<close>

theorem probe_twice_same:
  "let r1 = probe Size g pos pawnsTable; e1 = snd r1 (fst r1);
       r2 = probe Size g pos (snd r1); e2 = snd r2 (fst r2)
   in fst r2 = fst r1
      \<and> scores e2 = scores e1 \<and> passedPawns e2 = passedPawns e1
      \<and> pawnAttacks e2 = pawnAttacks e1 \<and> pawnAttacksSpan e2 = pawnAttacksSpan e1"
proof (cases "key (pawnsTable (table_slot Size (pawn_key pos))) = pawn_key pos
              \<and> pieces_pt pos SHOGI_PAWN = 0")
  case True
  then show ?thesis
    by (simp add: probe_hit Let_def)
next
  case False
  define i where "i = table_slot Size (pawn_key pos)"
  define R where "R = recomputed g pos (pawnsTable i)"
  have first: "probe Size g pos pawnsTable = (i, pawnsTable(i := R))"
    unfolding i_def R_def using False by (rule probe_miss)
  have keyR: "key R = pawn_key pos"
    by (simp add: R_def recomputed_def)
  have second: "probe Size g pos (pawnsTable(i := R)) = (i, pawnsTable(i := R))"
  proof (cases "pieces_pt pos SHOGI_PAWN = 0")
    case True
    then show ?thesis
      using probe_hit[where pawnsTable = "pawnsTable(i := R)" and Size = Size and pos = pos
          and g = g]
      by (simp add: i_def[symmetric] keyR)
  next
    case False
    then have "\<not> (key ((pawnsTable(i := R)) (table_slot Size (pawn_key pos))) = pawn_key pos
                  \<and> pieces_pt pos SHOGI_PAWN = 0)"
      by simp
    then have "probe Size g pos (pawnsTable(i := R)) =
        (table_slot Size (pawn_key pos), (pawnsTable(i := R))(table_slot Size (pawn_key pos) :=
           recomputed g pos ((pawnsTable(i := R)) (table_slot Size (pawn_key pos)))))"
      by (rule probe_miss)
    then show ?thesis
      by (simp add: i_def[symmetric] R_def recomputed_idem)
  qed
  show ?thesis
    by (simp add: Let_def first second)
qed

theorem probe_twice_same_witness:
  "pieces_pt pos_soft SHOGI_PAWN \<noteq> 0
   \<and> fst (probe 16 chess8 pos_soft (snd (probe 16 chess8 pos_soft empty_table)))
       = fst (probe 16 chess8 pos_soft empty_table)
   \<and> scores (snd (probe 16 chess8 pos_soft (snd (probe 16 chess8 pos_soft empty_table)))
               (fst (probe 16 chess8 pos_soft (snd (probe 16 chess8 pos_soft empty_table)))))
       = scores (snd (probe 16 chess8 pos_soft empty_table)
                   (fst (probe 16 chess8 pos_soft empty_table)))"
proof -
  have soft: "pieces_pt pos_soft SHOGI_PAWN \<noteq> 0"
    by (simp add: pos_soft_def kp_position_def kp_squares_def squares_bb_def square_bb_def)
  have same: "fst (probe 16 chess8 pos_soft (snd (probe 16 chess8 pos_soft empty_table)))
       = fst (probe 16 chess8 pos_soft empty_table)
   \<and> scores (snd (probe 16 chess8 pos_soft (snd (probe 16 chess8 pos_soft empty_table)))
               (fst (probe 16 chess8 pos_soft (snd (probe 16 chess8 pos_soft empty_table)))))
       = scores (snd (probe 16 chess8 pos_soft empty_table)
                   (fst (probe 16 chess8 pos_soft empty_table)))"
    using probe_twice_same[where pos = pos_soft and Size = 16 and g = chess8
        and pawnsTable = empty_table]
    unfolding Let_def by blast
  from soft same show ?thesis
    by blast
qed

text \<open>
  C10. The per-side evaluation sets \<^verbatim>\<open>kingSquares[Us]\<close> to \<^verbatim>\<open>SQ_NONE\<close>. So whenever
  probe recomputes an entry (the slot stored another key, or shogi pawns are present), the
  entry it returns has \<^verbatim>\<open>SQ_NONE\<close> as the king square of both colours, and for a side
  whose king stands on a square (one that is not \<^verbatim>\<open>SQ_NONE\<close>) the caller's comparison
  of the stored king square and castling rights with the position's fails: king safety is
  computed again.
\<close>

theorem recompute_resets_kingSquares:
  assumes "\<not> (key (pawnsTable (table_slot Size (pawn_key pos))) = pawn_key pos
              \<and> pieces_pt pos SHOGI_PAWN = 0)"
  shows "let r = probe Size g pos pawnsTable; e' = snd r (fst r)
         in kingSquares (snd (evaluate g pos Us e)) Us = SQ_NONE g
            \<and> kingSquares e' WHITE = SQ_NONE g \<and> kingSquares e' BLACK = SQ_NONE g
            \<and> (\<forall>c. square pos KING c \<noteq> SQ_NONE g \<longrightarrow> \<not> king_safety_cached e' pos c)"
proof -
  have "probe Size g pos pawnsTable =
       (table_slot Size (pawn_key pos),
        pawnsTable(table_slot Size (pawn_key pos) :=
          recomputed g pos (pawnsTable (table_slot Size (pawn_key pos)))))"
    using assms by (rule probe_miss)
  then show ?thesis
    by (simp add: Let_def evaluate_eq recomputed_def king_safety_cached_def)
qed

theorem recompute_resets_kingSquares_witness:
  "\<not> (key (empty_table (table_slot 16 (pawn_key pos_lever))) = pawn_key pos_lever
       \<and> pieces_pt pos_lever SHOGI_PAWN = 0)
   \<and> square pos_lever KING WHITE = 4 \<and> SQ_NONE chess8 = 64
   \<and> kingSquares (snd (probe 16 chess8 pos_lever empty_table)
                     (fst (probe 16 chess8 pos_lever empty_table))) WHITE = 64
   \<and> kingSquares (snd (probe 16 chess8 pos_lever empty_table)
                     (fst (probe 16 chess8 pos_lever empty_table))) BLACK = 64
   \<and> \<not> king_safety_cached (snd (probe 16 chess8 pos_lever empty_table)
                               (fst (probe 16 chess8 pos_lever empty_table))) pos_lever WHITE"
proof -
  have miss: "\<not> (key (empty_table (table_slot 16 (pawn_key pos_lever))) = pawn_key pos_lever
       \<and> pieces_pt pos_lever SHOGI_PAWN = 0)"
    by (simp add: empty_table_def zero_entry_def pos_lever_def kp_position_def)
  have ksq: "square pos_lever KING WHITE = 4"
    by (simp add: pos_lever_def kp_position_def kp_squares_def)
  have none: "SQ_NONE chess8 = 64"
    by (simp add: chess8_def)
  show ?thesis
    using recompute_resets_kingSquares[where pawnsTable = empty_table and Size = 16
        and pos = pos_lever and g = chess8 and Us = WHITE and e = zero_entry, OF miss]
      miss ksq none
    by (simp add: Let_def)
qed

section \<open>King safety\<close>

subsection \<open>The distance to the pawns\<close>

lemma minPawnDist_eq:
  "minPawnDist g pos Us =
     (let ksq = square pos KING Us;
          pawns = pieces pos Us PAWN
      in if pawns = 0 then 0
         else if pawns AND PseudoAttacks g Us KING ksq \<noteq> 0 then 1
         else Min (insert 8 ((\<lambda>n. distance g ksq (int n)) ` {n. bit pawns n})))"
proof (cases "pieces pos Us PAWN = 0")
  case True
  have "min_dist_loop g (square pos KING Us) 0 0 = 0"
    by (subst min_dist_loop.simps) simp
  with True show ?thesis
    by (simp add: minPawnDist_def Let_def)
next
  case False
  then show ?thesis
    unfolding minPawnDist_def Let_def min_dist_loop_eq
    by (simp only: if_False if_True simp_thms)
qed

text \<open>
  C2, as the code has it. \<^verbatim>\<open>do_king_safety\<close> returns the best shelter score minus
  the score (0, 16 * d), where d is 0 if the side has no pawns, 1 if one of its pawns stands
  on a square the king attacks, and otherwise the smallest of 8 and the distances from the
  king to the side's pawns.
\<close>

theorem do_king_safety_distance:
  "fst (do_king_safety g pos Us e) =
     best_shelter g pos Us
     - make_score VALUE_ZERO
         (16 * (let ksq = square pos KING Us;
                    pawns = pieces pos Us PAWN
                in if pawns = 0 then 0
                   else if pawns AND PseudoAttacks g Us KING ksq \<noteq> 0 then 1
                   else Min (insert 8 ((\<lambda>n. distance g ksq (int n)) ` {n. bit pawns n}))))"
  by (simp add: do_king_safety_def Let_def minPawnDist_eq)

lemma lsb_a2_a7: "lsb (281474976710912 :: 64 word) = 8"
  by code_simp

lemma lsb_a7: "lsb (281474976710656 :: 64 word) = 48"
  by code_simp

lemma pos_far_minPawnDist: "minPawnDist chess8 pos_far WHITE = 6"
  by (simp add: pos_far_def board_eval king_eval lsb_a2_a7 lsb_a7)

theorem do_king_safety_distance_witness:
  "fst (do_king_safety chess8 pos_far WHITE zero_entry) =
     best_shelter chess8 pos_far WHITE - make_score 0 96"
  using do_king_safety_distance[of chess8 pos_far WHITE zero_entry]
    minPawnDist_eq[of chess8 pos_far WHITE] pos_far_minPawnDist
  by (simp add: Let_def)

text \<open>
  The claim C2 as the spec states it fails for a side without pawns: the code takes the
  distance 0 there, not 8, and subtracts nothing.
\<close>

theorem king_safety_no_pawns_counterexample:
  "pieces pos_bare WHITE PAWN = 0
   \<and> spec_minPawnDist chess8 pos_bare WHITE = 8
   \<and> minPawnDist chess8 pos_bare WHITE = 0
   \<and> fst (do_king_safety chess8 pos_bare WHITE zero_entry)
       \<noteq> best_shelter chess8 pos_bare WHITE
          - make_score 0 (16 * spec_minPawnDist chess8 pos_bare WHITE)"
proof -
  have none: "pieces pos_bare WHITE PAWN = 0"
    by (simp add: pos_bare_def board_eval)
  have spec: "spec_minPawnDist chess8 pos_bare WHITE = 8"
    by (simp add: spec_minPawnDist_def none)
  have code: "minPawnDist chess8 pos_bare WHITE = 0"
    by (simp add: minPawnDist_eq none)
  have "fst (do_king_safety chess8 pos_bare WHITE zero_entry)
          = best_shelter chess8 pos_bare WHITE - make_score 0 0"
    by (simp add: do_king_safety_def code)
  then have "fst (do_king_safety chess8 pos_bare WHITE zero_entry)
       \<noteq> best_shelter chess8 pos_bare WHITE - make_score 0 (16 * 8)"
    by (cases "best_shelter chess8 pos_bare WHITE") (simp add: minus_Score_def)
  with none spec code show ?thesis
    by simp
qed

subsection \<open>The king's shelter\<close>

lemma shelter_loop_step:
  "f \<le> hi \<Longrightarrow> shelter_loop g pos Us ksq f hi b =
     shelter_loop g pos Us ksq (f + 1) hi (shelter_file g pos Us ksq f b)"
  by (subst shelter_loop.simps) (simp del: shelter_loop.simps)

lemma shelter_loop_stop: "hi < f \<Longrightarrow> shelter_loop g pos Us ksq f hi b = b"
  by (subst shelter_loop.simps) (simp del: shelter_loop.simps)

lemma shelter_loop_three:
  "shelter_loop g pos Us ksq (c - 1) (c + 1) b =
     shelter_file g pos Us ksq (c + 1)
       (shelter_file g pos Us ksq c (shelter_file g pos Us ksq (c - 1) b))"
proof -
  have "shelter_loop g pos Us ksq (c - 1) (c + 1) b =
      shelter_loop g pos Us ksq c (c + 1) (shelter_file g pos Us ksq (c - 1) b)"
    using shelter_loop_step[of "c - 1" "c + 1" g pos Us ksq b]
    by (simp del: shelter_loop.simps)
  also have "\<dots> = shelter_loop g pos Us ksq (c + 1) (c + 1)
      (shelter_file g pos Us ksq c (shelter_file g pos Us ksq (c - 1) b))"
    by (rule shelter_loop_step) simp
  also have "\<dots> = shelter_loop g pos Us ksq (c + 1 + 1) (c + 1)
      (shelter_file g pos Us ksq (c + 1)
        (shelter_file g pos Us ksq c (shelter_file g pos Us ksq (c - 1) b)))"
    by (rule shelter_loop_step) simp
  also have "\<dots> = shelter_file g pos Us ksq (c + 1)
        (shelter_file g pos Us ksq c (shelter_file g pos Us ksq (c - 1) b))"
    by (rule shelter_loop_stop) simp
  finally show ?thesis .
qed

text \<open>
  C3, as the code has it. \<^verbatim>\<open>evaluate_shelter\<close> scans the three files around the
  clamped king file, and on each file \<open>f\<close> the rows of \<^verbatim>\<open>ShelterStrength\<close> and
  \<^verbatim>\<open>UnblockedStorm\<close> are selected by the distance of \<open>f\<close> from the nearer edge of the
  board, \<open>min f (max_file - f)\<close>, clamped to 3; a file and its mirror image select the
  same row.
\<close>

theorem shelter_index_is_edge_distance:
  "evaluate_shelter g pos Us ksq shelter =
     (let c = shelter_center g pos ksq;
          bonus = shelter_file g pos Us ksq (c + 1)
                    (shelter_file g pos Us ksq c
                      (shelter_file g pos Us ksq (c - 1) (make_score 5 5)))
      in if mg_value bonus > mg_value shelter then bonus else shelter)
   \<and> shelter_file g pos Us ksq f b =
       shelter_term (captures_to_hand pos) (min (min f (max_file pos - f)) 3)
         (rank_on_file g pos Us (shelter_ourPawns g pos Us ksq AND file_bb g f))
         (rank_on_file g pos Us (shelter_theirPawns g pos Us ksq AND file_bb g f)) b
   \<and> shelter_d pos f = shelter_d pos (max_file pos - f)"
  by (simp add: evaluate_shelter_def shelter_loop_three shelter_file_def shelter_d_def Let_def
      min.commute del: shelter_loop.simps)

lemma lsb_g2: "lsb (16384 :: 64 word) = 14"
  by code_simp

theorem shelter_index_is_edge_distance_witness:
  "shelter_file chess8 pos_shield WHITE 6 6 (make_score 5 5) = make_score 22 5"
proof -
  have "shelter_term (captures_to_hand pos_shield) (min (min 6 (max_file pos_shield - 6)) 3)
         (rank_on_file chess8 pos_shield WHITE (shelter_ourPawns chess8 pos_shield WHITE 6 AND file_bb chess8 6))
         (rank_on_file chess8 pos_shield WHITE (shelter_theirPawns chess8 pos_shield WHITE 6 AND file_bb chess8 6))
         (make_score 5 5) = make_score 22 5"
    by (simp add: pos_shield_def board_eval score_eval king_eval lsb_g2)
  then show ?thesis
    using shelter_index_is_edge_distance[of chess8 pos_shield WHITE 6 "make_score 5 5" 6 "make_score 5 5"]
    by simp
qed

text \<open>
  The claim C3 as the spec states it fails: with the king on g1 the king's own file g has
  file distance 0 from the king's file, but the code uses the index 1, the distance of the
  g-file from the board's edge, and the two rows give different scores.
\<close>

theorem shelter_index_counterexample:
  "shelter_center chess8 pos_shield 6 = 6
   \<and> shelter_d pos_shield 6 = 1
   \<and> spec_shelter_d chess8 6 6 = 0
   \<and> shelter_file chess8 pos_shield WHITE 6 6 (make_score 5 5)
       = shelter_term False (shelter_d pos_shield 6) 1 0 (make_score 5 5)
   \<and> shelter_term False (shelter_d pos_shield 6) 1 0 (make_score 5 5) = make_score 22 5
   \<and> shelter_term False (spec_shelter_d chess8 6 6) 1 0 (make_score 5 5) = make_score (- 3) 5"
  by (simp add: pos_shield_def board_eval score_eval king_eval lsb_g2 spec_shelter_d_def)

section \<open>The pawns\<close>

lemma zero_iff_no_bit: "(b :: 'w::len word) = 0 \<longleftrightarrow> (\<forall>n. \<not> bit b n)"
proof
  assume "b = 0"
  then show "\<forall>n. \<not> bit b n" by simp
next
  assume "\<forall>n. \<not> bit b n"
  then show "b = 0" by (intro bit_eqI) simp
qed

lemma nonzero_iff_bit: "(b :: 'w::len word) \<noteq> 0 \<longleftrightarrow> (\<exists>n. bit b n)"
  by (simp add: zero_iff_no_bit)

lemma bits_weak_lever:
  fixes a b c d :: "'w::len word"
  shows "{n. bit (a AND b AND NOT (c OR d)) n} = {n. bit a n \<and> bit b n \<and> \<not> bit c n \<and> \<not> bit d n}"
  by (auto simp: bit_simps bit_imp_le_length)

lemma bit_square_bb_28: "bit (push_bit 28 1 :: 64 word) n \<longleftrightarrow> n = 28"
  unfolding bit_push_bit_iff bit_1_iff by auto

text \<open>
  C4, as the code has it. After the loop, \<^verbatim>\<open>evaluate\<close> subtracts \<^verbatim>\<open>WeakLever\<close> once
  for each own pawn that is (a) attacked twice by enemy pawns, (b) not on a square that an
  own pawn attacks, that is, not supported by an own pawn, and (c) not flagged as passed in
  the entry.
\<close>

theorem weak_lever_once_per_pawn:
  "fst (evaluate g pos Us e) =
     finish_score g pos Us
       (loop_score g pos Us (squares pos PAWN Us) SCORE_ZERO
        - score_mul WeakLever
            (int (card {n. bit (ourPawns pos Us) n
                           \<and> bit (doubleAttackThem g pos Us) n
                           \<and> \<not> bit (pawnAttacks (snd (evaluate g pos Us e)) Us) n
                           \<and> \<not> bit (passedPawns (snd (evaluate g pos Us e)) Us) n})))
   \<and> pawnAttacks (snd (evaluate g pos Us e)) Us = pawn_attacks_bb g Us (ourPawns pos Us)"
proof -
  have pa: "pawnAttacks (snd (evaluate g pos Us e)) Us = pawn_attacks_bb g Us (ourPawns pos Us)"
    by (simp add: evaluate_eq)
  have pp: "passedPawns (snd (evaluate g pos Us e)) Us = loop_passed g pos Us (squares pos PAWN Us)"
    by (simp add: evaluate_eq)
  have sc: "fst (evaluate g pos Us e) = pawn_score g pos Us"
    by (simp add: evaluate_eq)
  have cnt: "popcount (ourPawns pos Us AND doubleAttackThem g pos Us
               AND NOT (pawn_attacks_bb g Us (ourPawns pos Us)
                        OR loop_passed g pos Us (squares pos PAWN Us)))
      = int (card {n. bit (ourPawns pos Us) n
                           \<and> bit (doubleAttackThem g pos Us) n
                           \<and> \<not> bit (pawn_attacks_bb g Us (ourPawns pos Us)) n
                           \<and> \<not> bit (loop_passed g pos Us (squares pos PAWN Us)) n})"
    by (simp only: popcount_card bits_weak_lever)
  show ?thesis
    unfolding pa pp sc pawn_score_def cnt by (rule conjI) (rule refl)+
qed

lemma pos_lever_weak_lever_bb:
  "weak_lever_bb chess8 pos_lever WHITE (snd (evaluate chess8 pos_lever WHITE zero_entry))
     = square_bb 28"
  by (simp add: evaluate_eq pos_lever_def board_eval pawn_eval passed_flag_def)

theorem weak_lever_once_per_pawn_witness:
  "fst (evaluate chess8 pos_lever WHITE zero_entry) =
     finish_score chess8 pos_lever WHITE
       (loop_score chess8 pos_lever WHITE (squares pos_lever PAWN WHITE) SCORE_ZERO
        - score_mul WeakLever
            (int (card {n. bit (ourPawns pos_lever WHITE) n
                           \<and> bit (doubleAttackThem chess8 pos_lever WHITE) n
                           \<and> \<not> bit (pawnAttacks (snd (evaluate chess8 pos_lever WHITE zero_entry)) WHITE) n
                           \<and> \<not> bit (passedPawns (snd (evaluate chess8 pos_lever WHITE zero_entry)) WHITE) n})))
   \<and> pawn_attacks_bb chess8 WHITE (ourPawns pos_lever WHITE) = 171798691840
   \<and> pawnAttacks (snd (evaluate chess8 pos_lever WHITE zero_entry)) WHITE = 171798691840"
proof -
  have z: "pawn_attacks_bb chess8 WHITE (ourPawns pos_lever WHITE) = 171798691840"
    by (simp add: pos_lever_def board_eval pawn_eval)
  from weak_lever_once_per_pawn[of chess8 pos_lever WHITE zero_entry]
  show ?thesis
    unfolding z by blast
qed

text \<open>
  The claim C4 as the spec states it fails: the white pawn on e4 attacks the black pawns on
  d5 and f5, so it is not a pawn that attacks nothing, and no pawn meets the spec's three
  conditions; yet the code subtracts \<^verbatim>\<open>WeakLever\<close> for it.
\<close>

theorem weak_lever_counterexample:
  "\<not> attacks_nothing chess8 pos_lever WHITE 28
   \<and> spec_weak_levers chess8 pos_lever WHITE (snd (evaluate chess8 pos_lever WHITE zero_entry)) = {}
   \<and> popcount (weak_lever_bb chess8 pos_lever WHITE
                 (snd (evaluate chess8 pos_lever WHITE zero_entry))) = 1
   \<and> fst (evaluate chess8 pos_lever WHITE zero_entry)
       = score_pawn chess8 pos_lever WHITE 28 SCORE_ZERO - WeakLever"
proof -
  have a: "\<not> attacks_nothing chess8 pos_lever WHITE 28"
    by (simp add: attacks_nothing_def pos_lever_def board_eval pawn_eval)
  have ours: "ourPawns pos_lever WHITE = push_bit 28 1"
    by (simp add: pos_lever_def board_eval pawn_eval)
  have only: "\<And>n. bit (ourPawns pos_lever WHITE) n \<Longrightarrow> int n = 28"
    unfolding ours bit_square_bb_28 by simp
  have b: "spec_weak_levers chess8 pos_lever WHITE
             (snd (evaluate chess8 pos_lever WHITE zero_entry)) = {}"
    unfolding spec_weak_levers_def using a only by fastforce
  have c: "popcount (weak_lever_bb chess8 pos_lever WHITE
                 (snd (evaluate chess8 pos_lever WHITE zero_entry))) = 1"
    by (simp add: pos_lever_weak_lever_bb square_bb_def popcount_numeral popcount_zero)
  have d: "score_pawn chess8 pos_lever WHITE 28 SCORE_ZERO - WeakLever = make_score (- 5) (- 71)"
    by (simp add: pos_lever_def board_eval score_eval pawn_eval)
  from a b c d pos_lever_white_score show ?thesis
    by simp
qed

lemma neighbours_zero_not_connected:
  "neighbours g pos Us s = 0 \<Longrightarrow> \<not> connected_branch g pos Us s"
  by (simp add: connected_branch_def support_def phalanx_def)

text \<open>
  C5, as the code has it. For every pawn exactly one of the connected bonus, the isolated
  penalty, the backward penalty or none of them applies, and the isolated penalty applies
  exactly to the pawns without neighbours. The doubled penalty is applied on top of any of
  them, to a pawn that is doubled and has no support; it meets the connected bonus exactly
  when such a pawn has a phalanx neighbour.
\<close>

theorem pawn_branches:
  "score_pawn g pos Us s score =
     (let score1 =
        (if connected_branch g pos Us s
         then score + make_score (connected_v g pos Us s)
                        ((connected_v g pos Us s * (pawn_rank g pos Us s - 2)) sdiv 4)
         else if isolated_branch g pos Us s
         then score - (score_mul Isolated (1 + 2 * of_bool (must_capture pos))
                       + score_mul WeakUnopposed (of_bool (\<not> opposed g pos Us s)))
         else if backward_branch g pos Us s
         then score - (Backward + score_mul WeakUnopposed (of_bool (\<not> opposed g pos Us s)))
         else score)
      in if doubled_penalty g pos Us s then score1 - Doubled else score1)
   \<and> ((connected_branch g pos Us s \<and> \<not> isolated_branch g pos Us s
         \<and> \<not> backward_branch g pos Us s \<and> \<not> no_branch g pos Us s)
      \<or> (isolated_branch g pos Us s \<and> \<not> connected_branch g pos Us s
         \<and> \<not> backward_branch g pos Us s \<and> \<not> no_branch g pos Us s)
      \<or> (backward_branch g pos Us s \<and> \<not> connected_branch g pos Us s
         \<and> \<not> isolated_branch g pos Us s \<and> \<not> no_branch g pos Us s)
      \<or> (no_branch g pos Us s \<and> \<not> connected_branch g pos Us s
         \<and> \<not> isolated_branch g pos Us s \<and> \<not> backward_branch g pos Us s))
   \<and> (isolated_branch g pos Us s \<longleftrightarrow> neighbours g pos Us s = 0)
   \<and> (doubled_penalty g pos Us s \<and> connected_branch g pos Us s
        \<longleftrightarrow> doubled g pos Us s \<noteq> 0 \<and> support g pos Us s = 0 \<and> phalanx g pos Us s \<noteq> 0)"
proof -
  have score: "score_pawn g pos Us s score =
     (let score1 =
        (if connected_branch g pos Us s
         then score + make_score (connected_v g pos Us s)
                        ((connected_v g pos Us s * (pawn_rank g pos Us s - 2)) sdiv 4)
         else if isolated_branch g pos Us s
         then score - (score_mul Isolated (1 + 2 * of_bool (must_capture pos))
                       + score_mul WeakUnopposed (of_bool (\<not> opposed g pos Us s)))
         else if backward_branch g pos Us s
         then score - (Backward + score_mul WeakUnopposed (of_bool (\<not> opposed g pos Us s)))
         else score)
      in if doubled_penalty g pos Us s then score1 - Doubled else score1)"
    by (simp add: score_pawn_def connected_branch_def isolated_branch_def backward_branch_def
        doubled_penalty_def Let_def)
  have one: "(connected_branch g pos Us s \<and> \<not> isolated_branch g pos Us s
         \<and> \<not> backward_branch g pos Us s \<and> \<not> no_branch g pos Us s)
      \<or> (isolated_branch g pos Us s \<and> \<not> connected_branch g pos Us s
         \<and> \<not> backward_branch g pos Us s \<and> \<not> no_branch g pos Us s)
      \<or> (backward_branch g pos Us s \<and> \<not> connected_branch g pos Us s
         \<and> \<not> isolated_branch g pos Us s \<and> \<not> no_branch g pos Us s)
      \<or> (no_branch g pos Us s \<and> \<not> connected_branch g pos Us s
         \<and> \<not> isolated_branch g pos Us s \<and> \<not> backward_branch g pos Us s)"
    unfolding isolated_branch_def backward_branch_def no_branch_def by blast
  have iso: "isolated_branch g pos Us s \<longleftrightarrow> neighbours g pos Us s = 0"
    using neighbours_zero_not_connected[of g pos Us s]
    unfolding isolated_branch_def by blast
  have dbl: "doubled_penalty g pos Us s \<and> connected_branch g pos Us s
        \<longleftrightarrow> doubled g pos Us s \<noteq> 0 \<and> support g pos Us s = 0 \<and> phalanx g pos Us s \<noteq> 0"
    unfolding doubled_penalty_def connected_branch_def
    by (cases "support g pos Us s = 0") auto
  from score one iso dbl show ?thesis
    by blast
qed

lemma pos_doubled_e4:
  "connected_branch chess8 pos_doubled WHITE 28"
  "doubled chess8 pos_doubled WHITE 28 \<noteq> 0"
  "support chess8 pos_doubled WHITE 28 = 0"
  "phalanx chess8 pos_doubled WHITE 28 \<noteq> 0"
  "doubled_penalty chess8 pos_doubled WHITE 28"
  "score_pawn chess8 pos_doubled WHITE 28 SCORE_ZERO = make_score 25 (- 47)"
  "make_score 36 9 - Doubled = make_score 25 (- 47)"
  by (simp_all add: connected_branch_def doubled_penalty_def pos_doubled_def board_eval
      score_eval pawn_eval)

theorem pawn_branches_witness:
  "doubled_penalty chess8 pos_doubled WHITE 28 \<and> connected_branch chess8 pos_doubled WHITE 28
   \<and> doubled chess8 pos_doubled WHITE 28 \<noteq> 0 \<and> support chess8 pos_doubled WHITE 28 = 0
   \<and> phalanx chess8 pos_doubled WHITE 28 \<noteq> 0
   \<and> \<not> isolated_branch chess8 pos_doubled WHITE 28
   \<and> \<not> backward_branch chess8 pos_doubled WHITE 28
   \<and> \<not> no_branch chess8 pos_doubled WHITE 28"
  using pawn_branches[of chess8 pos_doubled WHITE 28 SCORE_ZERO] pos_doubled_e4(1,5)
  by blast

text \<open>
  The claim C5 as the spec states it fails in its last part: the white pawn on e4 stands in
  front of the pawn on e3, has no support and has the pawn on d4 beside it. It is doubled
  and unsupported, and the code applies the doubled penalty together with the connected
  bonus: 36 and 9 for the phalanx, minus \<^verbatim>\<open>Doubled\<close>.
\<close>

theorem doubled_with_connected_counterexample:
  "doubled chess8 pos_doubled WHITE 28 \<noteq> 0
   \<and> support chess8 pos_doubled WHITE 28 = 0
   \<and> connected_branch chess8 pos_doubled WHITE 28
   \<and> doubled_penalty chess8 pos_doubled WHITE 28
   \<and> score_pawn chess8 pos_doubled WHITE 28 SCORE_ZERO = make_score 36 9 - Doubled"
  using pos_doubled_e4 by simp

lemma xor_zero_iff: "(a :: 'w::len word) XOR b = 0 \<longleftrightarrow> a = b"
  by (metis bit.xor_self xor.left_neutral xor.assoc)

lemma bit_and_not_or:
  fixes x t d :: "'w::len word"
  shows "bit (x AND NOT (t OR d)) n \<longleftrightarrow> bit x n \<and> \<not> bit t n \<and> \<not> bit d n"
  by (auto simp: bit_simps bit_imp_le_length)

text \<open>
  C6, as the code has it. Where the squares a pawn attacks lie in its passed-pawn span (every
  lever is then a stopper), the pawn is classified passed iff (a) every stopper is also a
  lever, or (b) the stoppers are exactly the leverPush pawns and there are at least as many
  phalanx pawns as leverPush pawns, or (c) the forward square is on the board, the stoppers
  are exactly that square, the pawn's relative rank is at least \<^verbatim>\<open>RANK_5\<close> (its fifth
  rank) and at least one support pawn, pushed one square, lands on a square that holds no
  enemy pawn and is not attacked twice by enemy pawns. The pawn's square is added to
  \<^verbatim>\<open>passedPawns\<close> only when it is passed and its forward square is on the board.
\<close>

theorem passed_iff:
  assumes "PseudoAttacks g Us PAWN s AND passed_pawn_span g Us s = PseudoAttacks g Us PAWN s"
  shows "(passed g pos Us s \<longleftrightarrow>
            (\<forall>n. bit (stoppers g pos Us s) n \<longrightarrow> bit (lever g pos Us s) n)
          \<or> (stoppers g pos Us s = leverPush g pos Us s
              \<and> card {n. bit (phalanx g pos Us s) n} \<ge> card {n. bit (leverPush g pos Us s) n})
          \<or> (is_ok g (s + Up g Us) \<and> stoppers g pos Us s = square_bb (s + Up g Us)
              \<and> pawn_rank g pos Us s \<ge> RANK_5
              \<and> (\<exists>n. bit (shift g (Up g Us) (support g pos Us s)) n
                      \<and> \<not> bit (theirPawns pos Us) n
                      \<and> \<not> bit (doubleAttackThem g pos Us) n)))
       \<and> passedPawns (flag_pawn g pos Us s e) Us =
           (if passed g pos Us s \<and> is_ok g (s + Up g Us)
            then passedPawns e Us OR square_bb s else passedPawns e Us)"
proof -
  have sub: "\<And>n. bit (lever g pos Us s) n \<Longrightarrow> bit (stoppers g pos Us s) n"
  proof -
    fix n assume "bit (lever g pos Us s) n"
    then have "bit (theirPawns pos Us) n" and "bit (PseudoAttacks g Us PAWN s) n"
      by (simp_all add: lever_def bit_and_iff)
    moreover from this(2) have "bit (passed_pawn_span g Us s) n"
      by (subst (asm) assms[symmetric]) (simp add: bit_and_iff)
    ultimately show "bit (stoppers g pos Us s) n"
      by (simp add: stoppers_def bit_and_iff)
  qed
  have a: "stoppers g pos Us s XOR lever g pos Us s = 0
      \<longleftrightarrow> (\<forall>n. bit (stoppers g pos Us s) n \<longrightarrow> bit (lever g pos Us s) n)"
  proof
    assume "stoppers g pos Us s XOR lever g pos Us s = 0"
    then show "\<forall>n. bit (stoppers g pos Us s) n \<longrightarrow> bit (lever g pos Us s) n"
      by (simp add: xor_zero_iff)
  next
    assume "\<forall>n. bit (stoppers g pos Us s) n \<longrightarrow> bit (lever g pos Us s) n"
    then have "stoppers g pos Us s = lever g pos Us s"
      using sub by (intro bit_eqI) blast
    then show "stoppers g pos Us s XOR lever g pos Us s = 0"
      by (simp add: xor_zero_iff)
  qed
  have c: "shift g (Up g Us) (support g pos Us s)
              AND NOT (theirPawns pos Us OR doubleAttackThem g pos Us) \<noteq> 0
      \<longleftrightarrow> (\<exists>n. bit (shift g (Up g Us) (support g pos Us s)) n
                      \<and> \<not> bit (theirPawns pos Us) n
                      \<and> \<not> bit (doubleAttackThem g pos Us) n)"
    unfolding nonzero_iff_bit bit_and_not_or by (rule refl)
  have p: "passed g pos Us s \<longleftrightarrow>
            (\<forall>n. bit (stoppers g pos Us s) n \<longrightarrow> bit (lever g pos Us s) n)
          \<or> (stoppers g pos Us s = leverPush g pos Us s
              \<and> card {n. bit (phalanx g pos Us s) n} \<ge> card {n. bit (leverPush g pos Us s) n})
          \<or> (is_ok g (s + Up g Us) \<and> stoppers g pos Us s = square_bb (s + Up g Us)
              \<and> pawn_rank g pos Us s \<ge> RANK_5
              \<and> (\<exists>n. bit (shift g (Up g Us) (support g pos Us s)) n
                      \<and> \<not> bit (theirPawns pos Us) n
                      \<and> \<not> bit (doubleAttackThem g pos Us) n))"
    unfolding passed_def xor_zero_iff c popcount_card using a[unfolded xor_zero_iff] by simp
  have f: "passedPawns (flag_pawn g pos Us s e) Us =
           (if passed g pos Us s \<and> is_ok g (s + Up g Us)
            then passedPawns e Us OR square_bb s else passedPawns e Us)"
    by (simp add: flag_pawn_def Let_def)
  from p f show ?thesis
    by (rule conjI)
qed

lemma chess8_attacks_in_span:
  "PseudoAttacks chess8 WHITE PAWN 28 AND passed_pawn_span chess8 WHITE 28
     = PseudoAttacks chess8 WHITE PAWN 28"
  by (simp add: board_eval)

lemma pos_lever_e4_not_passed: "\<not> passed chess8 pos_lever WHITE 28"
  by (simp add: pos_lever_def board_eval pawn_eval)

theorem passed_iff_witness:
  "PseudoAttacks chess8 WHITE PAWN 28 AND passed_pawn_span chess8 WHITE 28
     = PseudoAttacks chess8 WHITE PAWN 28
   \<and> \<not> passed chess8 pos_lever WHITE 28
   \<and> (\<exists>n. bit (stoppers chess8 pos_lever WHITE 28) n \<and> \<not> bit (lever chess8 pos_lever WHITE 28) n)
   \<and> passedPawns (flag_pawn chess8 pos_lever WHITE 28 zero_entry) WHITE
       = passedPawns zero_entry WHITE"
  using passed_iff[OF chess8_attacks_in_span, of pos_lever zero_entry]
    chess8_attacks_in_span pos_lever_e4_not_passed
  by auto

text \<open>
  The claim C6 as the spec states it fails in (c): the white pawn on e5 is stopped by the
  black pawn on e6 alone, and its support pawn on d4, pushed, lands on d5, a square the pawn
  on e6 attacks. No landing square is free of enemy control, so the spec's conditions do not
  hold, but d5 holds no enemy pawn and is attacked only once, and the code classifies the
  pawn as passed.
\<close>

theorem passed_counterexample:
  "passed chess8 pos_front WHITE 36
   \<and> \<not> spec_passed chess8 pos_front WHITE 36
   \<and> shift chess8 (Up chess8 WHITE) (support chess8 pos_front WHITE 36) = square_bb 35
   \<and> enemy_pawn_control chess8 pos_front WHITE = square_bb 35 OR square_bb 37
   \<and> shift chess8 (Up chess8 WHITE) (support chess8 pos_front WHITE 36)
       AND NOT (enemy_pawn_control chess8 pos_front WHITE
                OR doubleAttackThem chess8 pos_front WHITE) = 0"
  by (simp add: spec_passed_def enemy_pawn_control_def pos_front_def board_eval pawn_eval)

lemma bits_or:
  fixes a b :: "'w::len word"
  shows "{n. bit (a OR b) n} = {n. bit a n} \<union> {n. bit b n}"
  by (auto simp: bit_or_iff)

text \<open>
  C7, as the code has it. For a pawn with support or phalanx, \<open>r\<close> its relative rank
  counted from 0 as the code's enum does (\<^verbatim>\<open>RANK_1\<close> is 0, so \<^verbatim>\<open>RANK_2\<close> is 1 and
  \<^verbatim>\<open>RANK_4\<close> is 3): the bonus is \<open>Connected[r]\<close> times 3 with a phalanx and 2 without,
  times 3 when \<open>r\<close> is \<^verbatim>\<open>RANK_2\<close> under captures-to-hand, divided by 2 when opposed, plus
  17 for each support pawn. When \<open>r\<close> is at least \<^verbatim>\<open>RANK_4\<close>, with more own pawns than a
  quarter of the board's squares, it is raised to at least 50 for each support or phalanx
  pawn and then halved when opposed. The score grows by the bonus in the midgame and by
  \<open>bonus * (r - 2) / 4\<close> in the endgame, the division truncating towards zero.
  \<^verbatim>\<open>Doubled\<close> is subtracted after that when the pawn is doubled and has no support.
\<close>

theorem connected_bonus:
  assumes "support g pos Us s OR phalanx g pos Us s \<noteq> 0"
  shows "score_pawn g pos Us s score =
     (let r = pawn_rank g pos Us s;
          half = (if opposed g pos Us s then 2 else 1);
          b0 = (array_at Connected r * (if phalanx g pos Us s \<noteq> 0 then 3 else 2)
                  * (if r = RANK_2 \<and> captures_to_hand pos then 3 else 1)) sdiv half
               + 17 * int (card {n. bit (support g pos Us s) n});
          bonus = (if r \<ge> RANK_4
                      \<and> count pos PAWN Us > int (card {n. bit (board_bb pos) n}) sdiv 4
                   then max b0 (50 * int (card ({n. bit (support g pos Us s) n}
                                                \<union> {n. bit (phalanx g pos Us s) n}))) sdiv half
                   else b0);
          added = score + make_score bonus ((bonus * (r - 2)) sdiv 4)
      in if doubled g pos Us s \<noteq> 0 \<and> support g pos Us s = 0 then added - Doubled else added)"
proof -
  have v: "connected_v g pos Us s =
     (let r = pawn_rank g pos Us s;
          half = (if opposed g pos Us s then 2 else 1);
          b0 = (array_at Connected r * (if phalanx g pos Us s \<noteq> 0 then 3 else 2)
                  * (if r = RANK_2 \<and> captures_to_hand pos then 3 else 1)) sdiv half
               + 17 * int (card {n. bit (support g pos Us s) n})
      in if r \<ge> RANK_4
            \<and> count pos PAWN Us > int (card {n. bit (board_bb pos) n}) sdiv 4
         then max b0 (50 * int (card ({n. bit (support g pos Us s) n}
                                      \<union> {n. bit (phalanx g pos Us s) n}))) sdiv half
         else b0)"
    unfolding connected_v_def popcount_card bits_or Let_def
    by (simp only: mult.commute[of _ 50])
  have sp: "score_pawn g pos Us s score =
     (let added = score + make_score (connected_v g pos Us s)
                            ((connected_v g pos Us s * (pawn_rank g pos Us s - 2)) sdiv 4)
      in if doubled g pos Us s \<noteq> 0 \<and> support g pos Us s = 0 then added - Doubled else added)"
    unfolding score_pawn_def Let_def if_P[OF assms] by (rule refl)
  show ?thesis
    by (simp only: sp v Let_def)
qed

lemma pos_doubled_connected: "support chess8 pos_doubled WHITE 28 OR phalanx chess8 pos_doubled WHITE 28 \<noteq> 0"
  by (simp add: pos_doubled_def board_eval pawn_eval)

theorem connected_bonus_witness:
  "support chess8 pos_doubled WHITE 28 OR phalanx chess8 pos_doubled WHITE 28 \<noteq> 0
   \<and> score_pawn chess8 pos_doubled WHITE 28 SCORE_ZERO = make_score 25 (- 47)
   \<and> score_pawn chess8 pos_doubled WHITE 28 SCORE_ZERO =
     (let r = pawn_rank chess8 pos_doubled WHITE 28;
          half = (if opposed chess8 pos_doubled WHITE 28 then 2 else 1);
          b0 = (array_at Connected r * (if phalanx chess8 pos_doubled WHITE 28 \<noteq> 0 then 3 else 2)
                  * (if r = RANK_2 \<and> captures_to_hand pos_doubled then 3 else 1)) sdiv half
               + 17 * int (card {n. bit (support chess8 pos_doubled WHITE 28) n});
          bonus = (if r \<ge> RANK_4
                      \<and> count pos_doubled PAWN WHITE > int (card {n. bit (board_bb pos_doubled) n}) sdiv 4
                   then max b0 (50 * int (card ({n. bit (support chess8 pos_doubled WHITE 28) n}
                                                \<union> {n. bit (phalanx chess8 pos_doubled WHITE 28) n}))) sdiv half
                   else b0);
          added = SCORE_ZERO + make_score bonus ((bonus * (r - 2)) sdiv 4)
      in if doubled chess8 pos_doubled WHITE 28 \<noteq> 0 \<and> support chess8 pos_doubled WHITE 28 = 0
         then added - Doubled else added)"
  using connected_bonus[OF pos_doubled_connected, of SCORE_ZERO] pos_doubled_connected
    pos_doubled_e4(6)
  by blast

text \<open>
  The claim C7 as the spec states it fails whichever way the ranks are numbered, as long as
  "relative rank" is one number. Counting from 1, the white pawn on e4 beside the pawn on d4
  is on rank 4: the code adds 36 and 36 * (3 - 2) / 4 = 9, the claim gives the endgame value
  36 * (4 - 2) / 4 = 18. Counting from 0, the white pawn on e2 beside the pawn on d2 has
  rank 1, not 2: under captures-to-hand the code triples its bonus to 63, the claim leaves it
  at 21.
\<close>

theorem connected_bonus_counterexample:
  "score_pawn chess8 pos_pair WHITE 28 SCORE_ZERO = make_score 36 9
   \<and> spec_connected_bonus 1 chess8 pos_pair WHITE 28 = make_score 36 18
   \<and> score_pawn chess8 pos_hand WHITE 12 SCORE_ZERO = make_score 63 (- 15)
   \<and> spec_connected_bonus 0 chess8 pos_hand WHITE 12 = make_score 21 (- 5)"
  by (simp add: spec_connected_bonus_def pos_pair_def pos_hand_def board_eval score_eval
      pawn_eval)

text \<open>
  C8, as the code has it. A pawn is classified backward iff no own pawn on an adjacent file
  stands on a rank behind it (the forward ranks from the opponent's point of view), its
  forward square is on the board, and some stopper is a leverPush pawn or stands on the
  forward square.
\<close>

theorem backward_iff:
  fixes g :: "'w::len word bitboard_h"
  shows "backward g pos Us s \<longleftrightarrow>
       (\<forall>n. bit (ourPawns pos Us) n \<and> bit (adjacent_files_bb g s) n
            \<longrightarrow> \<not> bit (forward_ranks_bb g (Them Us) s) n)
     \<and> is_ok g (s + Up g Us)
     \<and> (\<exists>n. bit (stoppers g pos Us s) n
            \<and> (bit (leverPush g pos Us s) n
                \<or> bit (square_bb (s + Up g Us) :: 'w word) n))"
  unfolding backward_def neighbours_def zero_iff_no_bit nonzero_iff_bit
  by (auto simp: bit_and_iff bit_or_iff)

lemma pos_lever_e4_backward: "backward chess8 pos_lever WHITE 28"
  by (simp add: pos_lever_def board_eval pawn_eval)

theorem backward_iff_witness:
  "backward chess8 pos_lever WHITE 28
   \<and> is_ok chess8 (28 + Up chess8 WHITE)
   \<and> (\<exists>n. bit (stoppers chess8 pos_lever WHITE 28) n
          \<and> (bit (leverPush chess8 pos_lever WHITE 28) n
              \<or> bit (square_bb (28 + Up chess8 WHITE) :: 64 word) n))"
  using backward_iff[of chess8 pos_lever WHITE 28] pos_lever_e4_backward
  by blast

text \<open>
  The claim C8 as the spec states it fails: the white pawn on e4 has its only neighbour, the
  pawn on d2, behind it and a black pawn on e5 in front of it. No neighbour is ahead, so
  the spec's three conditions hold, but the code does not classify the pawn as backward.
\<close>

theorem backward_counterexample:
  "spec_backward chess8 pos_behind WHITE 28 \<and> \<not> backward chess8 pos_behind WHITE 28"
  by (simp add: spec_backward_def pos_behind_def board_eval pawn_eval)

end
